theory Spec2Isabelle
  imports Complex_Main "HOL-Library.AList"
begin

section \<open>The backtest execution client of \<open>inv_trader/backtest/execution.pyx\<close>\<close>

text \<open>
  A shallow embedding of the class \<open>BacktestExecClient\<close>. The object's fields become the
  fields of a record that every method takes and returns; a raised exception is the left
  injection of a sum. The collaborators whose code lives in other modules (clock, GUID
  factory, event sink, order registry, position, account) are modelled as fields of the
  same record, each marked where it is introduced.
\<close>

subsection \<open>Values\<close>

type_synonym Symbol = string
type_synonym OrderId = string
type_synonym PositionId = string
type_synonym GUID = nat
type_synonym Price = rat
type_synonym Money = rat
type_synonym Quantity = int

text \<open>
  A \<open>datetime\<close> is the number of microseconds since 0001-01-01T00:00:00 UTC, the
  linear time line on which datetimes are compared and a \<open>timedelta\<close> (also in
  microseconds) is added.
\<close>

type_synonym datetime = int
type_synonym timedelta = int

datatype OrderSide = BUY | SELL

datatype OrderType = MARKET | LIMIT | STOP_MARKET | STOP_LIMIT | MIT

datatype error =
    PreconditionFailed | KeyError | IndexError | TypeError
  | OutOfBoundsDatetime | OutOfBoundsTimedelta

definition ebind :: "error + 'a \<Rightarrow> ('a \<Rightarrow> error + 'b) \<Rightarrow> error + 'b" where
  "ebind m f = (case m of Inl e \<Rightarrow> Inl e | Inr x \<Rightarrow> f x)"

definition usec_per_day :: int where
  "usec_per_day = 86400000000"

text \<open>
  The index of the bars is built with \<open>pd.to_datetime\<close>: its entries are pandas timestamps,
  and so is the wall clock of \<open>set_initial_iteration\<close>, which starts from the first entry.
  A pandas timestamp counts nanoseconds from 1970-01-01T00:00:00 UTC in a signed 64-bit
  integer, with a span of \<open>2^63 - 1\<close> nanoseconds on either side. At the microsecond
  resolution of a \<open>datetime\<close> and a \<open>timedelta\<close> that is a whole number of microseconds
  between 1677-09-21T00:12:43.145225 and 2262-04-11T23:47:16.854775.
\<close>

definition epoch :: datetime where
  "epoch = 719162 * usec_per_day"

definition nanosecond_span :: int where
  "nanosecond_span = (2 ^ 63 - 1) div 1000"

definition timestamp_min :: datetime where
  "timestamp_min = epoch - nanosecond_span"

definition timestamp_max :: datetime where
  "timestamp_max = epoch + nanosecond_span"

text \<open>
  Adding a \<open>timedelta\<close> to a pandas timestamp: the timedelta is first converted to
  nanoseconds, which raises \<open>OutOfBoundsTimedelta\<close> beyond the span, and the sum raises
  \<open>OutOfBoundsDatetime\<close> when it is not a timestamp.
\<close>

definition timestamp_add :: "datetime \<Rightarrow> timedelta \<Rightarrow> error + datetime" where
  "timestamp_add t d =
     (if d < - nanosecond_span \<or> nanosecond_span < d then Inl OutOfBoundsTimedelta
      else if timestamp_min \<le> t + d \<and> t + d \<le> timestamp_max then Inr (t + d)
      else Inl OutOfBoundsDatetime)"

text \<open>The proleptic Gregorian ordinal of the date of a datetime (1 is 0001-01-01).\<close>

definition toordinal :: "datetime \<Rightarrow> int" where
  "toordinal t = t div usec_per_day + 1"

definition DAYS_IN_MONTH :: "int \<Rightarrow> int" where
  "DAYS_IN_MONTH m =
     (if m = 2 then 28 else if m = 4 \<or> m = 6 \<or> m = 9 \<or> m = 11 then 30 else 31)"

definition DAYS_BEFORE_MONTH :: "int \<Rightarrow> int" where
  "DAYS_BEFORE_MONTH m =
     (if m = 1 then 0 else if m = 2 then 31 else if m = 3 then 59 else if m = 4 then 90
      else if m = 5 then 120 else if m = 6 then 151 else if m = 7 then 181
      else if m = 8 then 212 else if m = 9 then 243 else if m = 10 then 273
      else if m = 11 then 304 else 334)"

text \<open>
  The standard library's conversion of an ordinal to (year, month, day), which is what
  the attribute \<open>time.day\<close> reads: the day of the month, 1 to 31.
\<close>

definition ord2ymd :: "int \<Rightarrow> int \<times> int \<times> int" where
  "ord2ymd ordinal =
     (let n = ordinal - 1;
          n400 = n div 146097; na = n mod 146097;
          n100 = na div 36524; nb = na mod 36524;
          n4 = nb div 1461; nc = nb mod 1461;
          n1 = nc div 365; nd = nc mod 365;
          year = n400 * 400 + 1 + n100 * 100 + n4 * 4 + n1
      in if n1 = 4 \<or> n100 = 4 then (year - 1, 12, 31)
         else
           let leapyear = (n1 = 3 \<and> (n4 \<noteq> 24 \<or> n100 = 3));
               month = (nd + 50) div 32;
               preceding = DAYS_BEFORE_MONTH month + (if month > 2 \<and> leapyear then 1 else 0)
           in if preceding > nd
              then (year, month - 1,
                    nd - (preceding - (DAYS_IN_MONTH (month - 1)
                                       + (if month - 1 = 2 \<and> leapyear then 1 else 0))) + 1)
              else (year, month, nd - preceding + 1))"

definition dt_day :: "datetime \<Rightarrow> int" where
  "dt_day t = snd (snd (ord2ymd (toordinal t)))"

subsection \<open>Orders, bars, positions, account, events\<close>

text \<open>
  Modelled from the spec: the classes \<open>Order\<close>, \<open>Instrument\<close>, \<open>Position\<close>, \<open>Account\<close> and
  the event classes are declared in other modules of the package. The records hold the attributes the client reads, with the spec's names; \<open>price\<close> is absent
  for a MARKET order and \<open>expire_time\<close> is optional.
\<close>

record Order =
  order_id :: OrderId
  symbol :: Symbol
  side :: OrderSide
  order_type :: OrderType
  quantity :: Quantity
  price :: "Price option"
  label :: string
  time_in_force :: string
  expire_time :: "datetime option"
  broker_id :: "OrderId option"

record Instrument =
  tick_size :: rat
  tick_precision :: nat

text \<open>A prepared bar: the four prices that \<open>_convert_to_prices\<close> puts at slots 0 to 3.\<close>

datatype Bar = Bar (bar_open: Price) (bar_high: Price) (bar_low: Price) (bar_close: Price)

record Account =
  account_id :: string
  broker :: string
  account_number :: string
  currency :: string
  cash_balance :: Money
  margin_used_liquidation :: Money
  margin_used_maintenance :: Money
  margin_ratio :: rat
  margin_call_status :: string

record AccountSnapshot =
  ev_account_id :: string
  ev_broker :: string
  ev_account_number :: string
  ev_currency :: string
  ev_cash_balance :: Money
  ev_cash_start_day :: Money
  ev_cash_activity_day :: Money
  ev_margin_used_liquidation :: Money
  ev_margin_used_maintenance :: Money
  ev_margin_ratio :: rat
  ev_margin_call_status :: string

text \<open>
  The text of a rejection is an f-string over the order's price and the closing quote;
  it is kept as the template and the two interpolated prices.
\<close>

datatype RejectReason =
    BuyStopBelowAsk Price Price
  | BuyLimitAboveAsk Price Price
  | SellStopAboveBid Price Price
  | SellLimitBelowBid Price Price

text \<open>
  Every event ends with its \<open>event_id\<close> and \<open>event_timestamp\<close>; the arguments before them
  are in the order of the constructor calls of the source.
\<close>

datatype Event =
    OrderSubmitted Symbol OrderId datetime GUID datetime
  | OrderAccepted Symbol OrderId datetime GUID datetime
  | OrderRejected Symbol OrderId datetime RejectReason GUID datetime
  | OrderWorking Symbol OrderId OrderId string OrderSide OrderType Quantity "Price option"
      string datetime GUID datetime "datetime option"
  | OrderCancelled Symbol OrderId datetime GUID datetime
  | OrderModified Symbol OrderId "OrderId option" Price datetime GUID datetime
  | OrderCancelReject Symbol OrderId datetime string RejectReason GUID datetime
  | OrderExpired Symbol OrderId "datetime option" GUID datetime
  | OrderFilled Symbol OrderId string string OrderSide Quantity Price datetime GUID datetime
  | AccountEvent AccountSnapshot GUID datetime

text \<open>
  Modelled from the spec: \<open>Position.apply\<close> and \<open>Position.is_exited\<close> belong to the position
  module. A fill adds the quantity to the signed net quantity on a BUY and subtracts it on
  a SELL; a position is exited when its net quantity is back at zero.
\<close>

record Position =
  pos_symbol :: Symbol
  pos_id :: PositionId
  pos_timestamp :: datetime
  net_quantity :: int

definition position_apply :: "Position \<Rightarrow> OrderSide \<Rightarrow> Quantity \<Rightarrow> Position" where
  "position_apply p sd q =
     p\<lparr>net_quantity := (case sd of BUY \<Rightarrow> net_quantity p + q | SELL \<Rightarrow> net_quantity p - q)\<rparr>"

definition is_exited :: "Position \<Rightarrow> bool" where
  "is_exited p = (net_quantity p = 0)"

subsection \<open>The client's state\<close>

text \<open>
  The fields of \<open>BacktestExecClient\<close>, followed by the injected services.
  Modelled from the spec: the clock is its current time, the GUID factory a counter of the
  identifiers handed out, the event sink \<open>_on_event\<close> the list of the events received in
  order, and \<open>_register_order\<close> a map from order id to the owning strategy.
  \<open>working_orders\<close> is an association list in insertion order, the order in which a
  Python dict is iterated.
\<close>

record BacktestExecClient =
  instruments :: "Symbol \<rightharpoonup> Instrument"
  data_bars_bid :: "Symbol \<rightharpoonup> Bar list"
  data_bars_ask :: "Symbol \<rightharpoonup> Bar list"
  data_minute_index :: "datetime list"
  iteration :: nat
  day_number :: int
  account_cash_start_day :: Money
  account_cash_activity_day :: Money
  slippage_index :: "Symbol \<rightharpoonup> rat"
  working_orders :: "(OrderId \<times> Order) list"
  positions_count :: "Symbol \<rightharpoonup> nat"
  positions :: "Symbol \<rightharpoonup> Position"
  completed_positions :: "PositionId \<rightharpoonup> Position"
  account :: Account
  clock_time :: datetime
  guid_count :: nat
  order_index :: "OrderId \<rightharpoonup> GUID"
  events :: "Event list"

definition time_now :: "BacktestExecClient \<Rightarrow> datetime" where
  "time_now s = clock_time s"

definition generate :: "BacktestExecClient \<Rightarrow> GUID \<times> BacktestExecClient" where
  "generate s = (guid_count s, s\<lparr>guid_count := Suc (guid_count s)\<rparr>)"

definition on_event :: "Event \<Rightarrow> BacktestExecClient \<Rightarrow> BacktestExecClient" where
  "on_event e s = s\<lparr>events := events s @ [e]\<rparr>"

definition register_order :: "Order \<Rightarrow> GUID \<Rightarrow> BacktestExecClient \<Rightarrow> BacktestExecClient" where
  "register_order order strategy_id s =
     s\<lparr>order_index := (order_index s)(order_id order \<mapsto> strategy_id)\<rparr>"

text \<open>Dict operations that raise \<open>KeyError\<close>.\<close>

definition dict_get :: "('k \<rightharpoonup> 'v) \<Rightarrow> 'k \<Rightarrow> error + 'v" where
  "dict_get m k = (case m k of None \<Rightarrow> Inl KeyError | Some v \<Rightarrow> Inr v)"

definition dict_del :: "'k \<Rightarrow> ('k \<times> 'v) list \<Rightarrow> error + ('k \<times> 'v) list" where
  "dict_del k al = (if k \<in> fst ` set al then Inr (AList.delete k al) else Inl KeyError)"

text \<open>
  Reading the price of an order; comparing or adding the \<open>None\<close> of a MARKET order
  raises \<open>TypeError\<close>.
\<close>

definition price_of :: "Order \<Rightarrow> error + Price" where
  "price_of order = (case price order of None \<Rightarrow> Inl TypeError | Some p \<Rightarrow> Inr p)"

subsection \<open>The bar cursor\<close>

definition bar_at :: "(Symbol \<rightharpoonup> Bar list) \<Rightarrow> Symbol \<Rightarrow> nat \<Rightarrow> error + Bar" where
  "bar_at bars sy i =
     ebind (dict_get bars sy) (\<lambda>bs. if i < length bs then Inr (bs ! i) else Inl IndexError)"

definition get_highest_bid :: "BacktestExecClient \<Rightarrow> Symbol \<Rightarrow> error + Price" where
  "get_highest_bid s sy = ebind (bar_at (data_bars_bid s) sy (iteration s)) (\<lambda>b. Inr (bar_high b))"

definition get_lowest_bid :: "BacktestExecClient \<Rightarrow> Symbol \<Rightarrow> error + Price" where
  "get_lowest_bid s sy = ebind (bar_at (data_bars_bid s) sy (iteration s)) (\<lambda>b. Inr (bar_low b))"

definition get_closing_bid :: "BacktestExecClient \<Rightarrow> Symbol \<Rightarrow> error + Price" where
  "get_closing_bid s sy = ebind (bar_at (data_bars_bid s) sy (iteration s)) (\<lambda>b. Inr (bar_close b))"

definition get_highest_ask :: "BacktestExecClient \<Rightarrow> Symbol \<Rightarrow> error + Price" where
  "get_highest_ask s sy = ebind (bar_at (data_bars_ask s) sy (iteration s)) (\<lambda>b. Inr (bar_high b))"

definition get_lowest_ask :: "BacktestExecClient \<Rightarrow> Symbol \<Rightarrow> error + Price" where
  "get_lowest_ask s sy = ebind (bar_at (data_bars_ask s) sy (iteration s)) (\<lambda>b. Inr (bar_low b))"

definition get_closing_ask :: "BacktestExecClient \<Rightarrow> Symbol \<Rightarrow> error + Price" where
  "get_closing_ask s sy = ebind (bar_at (data_bars_ask s) sy (iteration s)) (\<lambda>b. Inr (bar_close b))"

subsection \<open>Emitting events\<close>

definition account_snapshot ::
  "BacktestExecClient \<Rightarrow> Money \<Rightarrow> Money \<Rightarrow> rat \<Rightarrow> string \<Rightarrow> AccountSnapshot" where
  "account_snapshot s liq mnt ratio status =
     \<lparr>ev_account_id = account_id (account s), ev_broker = broker (account s),
      ev_account_number = account_number (account s), ev_currency = currency (account s),
      ev_cash_balance = cash_balance (account s),
      ev_cash_start_day = account_cash_start_day s,
      ev_cash_activity_day = account_cash_activity_day s,
      ev_margin_used_liquidation = liq, ev_margin_used_maintenance = mnt,
      ev_margin_ratio = ratio, ev_margin_call_status = status\<rparr>"

definition collateral_inquiry :: "BacktestExecClient \<Rightarrow> BacktestExecClient" where
  "collateral_inquiry s =
     (let (g, s1) = generate s
      in on_event (AccountEvent
            (account_snapshot s (margin_used_liquidation (account s))
               (margin_used_maintenance (account s)) (margin_ratio (account s))
               (margin_call_status (account s)))
            g (time_now s1)) s1)"

definition reject_order :: "BacktestExecClient \<Rightarrow> Order \<Rightarrow> RejectReason \<Rightarrow> BacktestExecClient" where
  "reject_order s order reason =
     (let (g, s1) = generate s
      in on_event (OrderRejected (symbol order) (order_id order) (time_now s) reason g (time_now s1)) s1)"

definition reject_modify_order ::
  "BacktestExecClient \<Rightarrow> Order \<Rightarrow> RejectReason \<Rightarrow> BacktestExecClient" where
  "reject_modify_order s order reason =
     (let (g, s1) = generate s
      in on_event (OrderCancelReject (symbol order) (order_id order) (time_now s)
                     ''INVALID PRICE'' reason g (time_now s1)) s1)"

definition expire_order :: "BacktestExecClient \<Rightarrow> Order \<Rightarrow> BacktestExecClient" where
  "expire_order s order =
     (let (g, s1) = generate s
      in on_event (OrderExpired (symbol order) (order_id order) (expire_time order) g
                     (time_now s1)) s1)"

text \<open>Python's \<open>str\<close> of a non-negative integer, for the position identifiers.\<close>

definition digit_char :: "nat \<Rightarrow> char" where
  "digit_char d = char_of (48 + d)"

fun str_nat :: "nat \<Rightarrow> string" where
  "str_nat n = (if n < 10 then [digit_char n] else str_nat (n div 10) @ [digit_char (n mod 10)])"

declare str_nat.simps [simp del]

text \<open>
  \<open>_adjust_positions\<close>, on the symbol, side, quantity and timestamp of the fill event. The
  \<open>AccountEvent\<close> that the method builds last takes an identifier from the GUID factory and
  is assigned to a local variable; no call of \<open>_on_event\<close> follows.
\<close>

definition adjust_positions ::
  "BacktestExecClient \<Rightarrow> Symbol \<Rightarrow> OrderSide \<Rightarrow> Quantity \<Rightarrow> datetime \<Rightarrow> BacktestExecClient" where
  "adjust_positions s sy sd q ts =
     (let s1 = (if sy \<notin> dom (positions_count s)
                then s\<lparr>positions_count := (positions_count s)(sy \<mapsto> 0)\<rparr> else s);
          s2 = (if sy \<notin> dom (positions s1)
                then (let c = Suc (the (positions_count s1 sy))
                      in s1\<lparr>positions_count := (positions_count s1)(sy \<mapsto> c),
                            positions := (positions s1)(sy \<mapsto>
                              \<lparr>pos_symbol = sy, pos_id = sy @ ''-'' @ str_nat c,
                               pos_timestamp = ts, net_quantity = 0\<rparr>)\<rparr>)
                else s1);
          subject_position = position_apply (the (positions s2 sy)) sd q;
          s3 = (if is_exited subject_position
                then s2\<lparr>completed_positions :=
                          (completed_positions s2)(pos_id subject_position \<mapsto> subject_position),
                        positions := (positions s2)(sy := None)\<rparr>
                else s2\<lparr>positions := (positions s2)(sy \<mapsto> subject_position)\<rparr>)
      in snd (generate s3))"

text \<open>
  \<open>_fill_order\<close>. Its callers wrap the fill price in \<open>Price(...)\<close>, which leaves a decimal
  of the instrument's precision as it is.
\<close>

definition fill_order :: "BacktestExecClient \<Rightarrow> Order \<Rightarrow> Price \<Rightarrow> BacktestExecClient" where
  "fill_order s order fill_price =
     (let (g, s1) = generate s;
          s2 = on_event (OrderFilled (symbol order) (order_id order)
                           (''E'' @ order_id order) (''ET'' @ order_id order)
                           (side order) (quantity order) fill_price
                           (time_now s) g (time_now s1)) s1
      in adjust_positions s2 (symbol order) (side order) (quantity order) (time_now s1))"

subsection \<open>Commands\<close>

text \<open>The tail of \<open>submit_order\<close>: the order becomes working.\<close>

definition order_becomes_working :: "BacktestExecClient \<Rightarrow> Order \<Rightarrow> BacktestExecClient" where
  "order_becomes_working s order =
     (let s1 = s\<lparr>working_orders := AList.update (order_id order) order (working_orders s)\<rparr>;
          (g, s2) = generate s1
      in on_event (OrderWorking (symbol order) (order_id order) (''B'' @ order_id order)
                     (label order) (side order) (order_type order) (quantity order)
                     (price order) (time_in_force order) (time_now s1) g (time_now s2)
                     (expire_time order)) s2)"

definition submit_order :: "BacktestExecClient \<Rightarrow> Order \<Rightarrow> GUID \<Rightarrow> error + BacktestExecClient" where
  "submit_order s order strategy_id =
     (if order_id order \<in> fst ` set (working_orders s) then Inl PreconditionFailed
      else
        let s1 = register_order order strategy_id s;
            (g1, s2) = generate s1;
            s3 = on_event (OrderSubmitted (symbol order) (order_id order) (time_now s1) g1
                             (time_now s2)) s2;
            (g2, s4) = generate s3;
            s5 = on_event (OrderAccepted (symbol order) (order_id order) (time_now s3) g2
                             (time_now s4)) s4
        in case side order of
             BUY \<Rightarrow>
               ebind (get_closing_ask s5 (symbol order)) (\<lambda>closing_ask.
                 if order_type order = MARKET then
                   ebind (dict_get (slippage_index s5) (symbol order)) (\<lambda>slip.
                     Inr (fill_order s5 order (closing_ask + slip)))
                 else if order_type order = STOP_MARKET \<or> order_type order = STOP_LIMIT
                         \<or> order_type order = MIT then
                   ebind (price_of order) (\<lambda>p.
                     if p < closing_ask
                     then Inr (reject_order s5 order (BuyStopBelowAsk p closing_ask))
                     else Inr (order_becomes_working s5 order))
                 else if order_type order = LIMIT then
                   ebind (price_of order) (\<lambda>p.
                     if p > closing_ask
                     then Inr (reject_order s5 order (BuyLimitAboveAsk p closing_ask))
                     else Inr (order_becomes_working s5 order))
                 else Inr (order_becomes_working s5 order))
           | SELL \<Rightarrow>
               ebind (get_closing_bid s5 (symbol order)) (\<lambda>closing_bid.
                 if order_type order = MARKET then
                   ebind (dict_get (slippage_index s5) (symbol order)) (\<lambda>slip.
                     Inr (fill_order s5 order (closing_bid - slip)))
                 else if order_type order = STOP_MARKET \<or> order_type order = STOP_LIMIT
                         \<or> order_type order = MIT then
                   ebind (price_of order) (\<lambda>p.
                     if p > closing_bid
                     then Inr (reject_order s5 order (SellStopAboveBid p closing_bid))
                     else Inr (order_becomes_working s5 order))
                 else if order_type order = LIMIT then
                   ebind (price_of order) (\<lambda>p.
                     if p < closing_bid
                     then Inr (reject_order s5 order (SellLimitBelowBid p closing_bid))
                     else Inr (order_becomes_working s5 order))
                 else Inr (order_becomes_working s5 order)))"

definition cancel_order :: "BacktestExecClient \<Rightarrow> Order \<Rightarrow> string \<Rightarrow> error + BacktestExecClient" where
  "cancel_order s order cancel_reason =
     (if order_id order \<notin> fst ` set (working_orders s) then Inl PreconditionFailed
      else
        let (g, s1) = generate s;
            cancelled = OrderCancelled (symbol order) (order_id order) (time_now s) g (time_now s1)
        in ebind (dict_del (order_id order) (working_orders s1)) (\<lambda>w.
             Inr (on_event cancelled (s1\<lparr>working_orders := w\<rparr>))))"

text \<open>The tail of \<open>modify_order\<close>: the \<open>OrderModified\<close> event is built and sent.\<close>

definition order_modified :: "BacktestExecClient \<Rightarrow> Order \<Rightarrow> Price \<Rightarrow> BacktestExecClient" where
  "order_modified s order new_price =
     (let (g, s1) = generate s
      in on_event (OrderModified (symbol order) (order_id order) (broker_id order) new_price
                     (time_now s) g (time_now s1)) s1)"

text \<open>\<open>modify_order\<close>; its \<open>print(new_price)\<close> writes to the standard output only.\<close>

definition modify_order :: "BacktestExecClient \<Rightarrow> Order \<Rightarrow> Price \<Rightarrow> error + BacktestExecClient" where
  "modify_order s order new_price =
     (if order_id order \<notin> fst ` set (working_orders s) then Inl PreconditionFailed
      else case side order of
             BUY \<Rightarrow>
               ebind (get_closing_ask s (symbol order)) (\<lambda>current_ask.
                 if order_type order = STOP_MARKET \<or> order_type order = STOP_LIMIT
                    \<or> order_type order = MIT then
                   ebind (price_of order) (\<lambda>p.
                     if p < current_ask
                     then Inr (reject_modify_order s order (BuyStopBelowAsk p current_ask))
                     else Inr (order_modified s order new_price))
                 else if order_type order = LIMIT then
                   ebind (price_of order) (\<lambda>p.
                     if p > current_ask
                     then Inr (reject_modify_order s order (BuyLimitAboveAsk p current_ask))
                     else Inr (order_modified s order new_price))
                 else Inr (order_modified s order new_price))
           | SELL \<Rightarrow>
               ebind (get_closing_bid s (symbol order)) (\<lambda>current_bid.
                 if order_type order = STOP_MARKET \<or> order_type order = STOP_LIMIT
                    \<or> order_type order = MIT then
                   ebind (price_of order) (\<lambda>p.
                     if p > current_bid
                     then Inr (reject_modify_order s order (SellStopAboveBid p current_bid))
                     else Inr (order_modified s order new_price))
                 else if order_type order = LIMIT then
                   ebind (price_of order) (\<lambda>p.
                     if p < current_bid
                     then Inr (reject_modify_order s order (SellLimitBelowBid p current_bid))
                     else Inr (order_modified s order new_price))
                 else Inr (order_modified s order new_price)))"

subsection \<open>Construction of the slippage table\<close>

text \<open>
  \<open>_set_slippage_index\<close> over the instruments dictionary: every symbol gets
  \<open>tick_size * slippage_ticks\<close>.
\<close>

definition set_slippage_index :: "BacktestExecClient \<Rightarrow> int \<Rightarrow> BacktestExecClient" where
  "set_slippage_index s slippage_ticks =
     s\<lparr>slippage_index := (\<lambda>sy. case instruments s sy of None \<Rightarrow> None
                              | Some instrument \<Rightarrow> Some (tick_size instrument * of_int slippage_ticks))\<rparr>"

subsection \<open>\<open>iterate\<close>\<close>

text \<open>
  The scan tests \<open>order.type is OrderType.STOP_MARKET or OrderType.STOP_LIMIT or OrderType.MIT\<close>:
  the second and third operands of \<open>or\<close> are the enumeration members themselves, which count
  as true when their integer value is not zero. The enumeration is declared in another
  module; its integer values are the parameter \<open>enum_value\<close>.
\<close>

definition scan_stop_condition :: "(OrderType \<Rightarrow> int) \<Rightarrow> OrderType \<Rightarrow> bool" where
  "scan_stop_condition enum_value ty =
     (ty = STOP_MARKET \<or> enum_value STOP_LIMIT \<noteq> 0 \<or> enum_value MIT \<noteq> 0)"

text \<open>The three lines of a fill in the scan: delete, compute the price, \<open>_fill_order\<close>.\<close>

definition scan_fill ::
  "BacktestExecClient \<Rightarrow> Order \<Rightarrow> Price \<Rightarrow> (Price \<Rightarrow> rat \<Rightarrow> Price) \<Rightarrow> error + BacktestExecClient" where
  "scan_fill s order p adjust =
     ebind (dict_del (order_id order) (working_orders s)) (\<lambda>w.
       ebind (dict_get (slippage_index s) (symbol order)) (\<lambda>slip.
         Inr (fill_order (s\<lparr>working_orders := w\<rparr>) order (adjust p slip))))"

text \<open>The expiry check at the end of the loop body.\<close>

definition scan_expiry :: "datetime \<Rightarrow> BacktestExecClient \<Rightarrow> Order \<Rightarrow> error + BacktestExecClient" where
  "scan_expiry time s order =
     (case expire_time order of
        None \<Rightarrow> Inr s
      | Some et \<Rightarrow>
          if time \<ge> et
          then ebind (dict_del (order_id order) (working_orders s)) (\<lambda>w.
                 Inr (expire_order (s\<lparr>working_orders := w\<rparr>) order))
          else Inr s)"

text \<open>The body of the loop over the copy of \<open>working_orders\<close>, for one order.\<close>

definition scan_order ::
  "(OrderType \<Rightarrow> int) \<Rightarrow> datetime \<Rightarrow> BacktestExecClient \<Rightarrow> Order \<Rightarrow> error + BacktestExecClient" where
  "scan_order enum_value time s order =
     (case side order of
        BUY \<Rightarrow>
          ebind (get_highest_ask s (symbol order)) (\<lambda>highest_ask.
            if scan_stop_condition enum_value (order_type order) then
              ebind (price_of order) (\<lambda>p.
                if highest_ask \<ge> p then scan_fill s order p (\<lambda>p slip. p + slip)
                else scan_expiry time s order)
            else if order_type order = LIMIT then
              ebind (price_of order) (\<lambda>p.
                if highest_ask < p then scan_fill s order p (\<lambda>p slip. p + slip)
                else scan_expiry time s order)
            else scan_expiry time s order)
      | SELL \<Rightarrow>
          ebind (get_lowest_bid s (symbol order)) (\<lambda>lowest_bid.
            if scan_stop_condition enum_value (order_type order) then
              ebind (price_of order) (\<lambda>p.
                if lowest_bid \<le> p then scan_fill s order p (\<lambda>p slip. p - slip)
                else scan_expiry time s order)
            else if order_type order = LIMIT then
              ebind (price_of order) (\<lambda>p.
                if lowest_bid > p then scan_fill s order p (\<lambda>p slip. p - slip)
                else scan_expiry time s order)
            else scan_expiry time s order))"

primrec scan_orders ::
  "(OrderType \<Rightarrow> int) \<Rightarrow> datetime \<Rightarrow> (OrderId \<times> Order) list \<Rightarrow> BacktestExecClient
     \<Rightarrow> error + BacktestExecClient" where
  "scan_orders enum_value time [] s = Inr s"
| "scan_orders enum_value time (item # items) s =
     ebind (scan_order enum_value time s (snd item)) (scan_orders enum_value time items)"

text \<open>
  The day rollover at the head of \<open>iterate\<close>. Its test \<open>self.day_number is not time.day\<close>
  compares two small integers (a day of the month is between 1 and 31, the initial
  \<open>day_number\<close> is 0), for which identity is equality.
\<close>

definition day_rollover :: "BacktestExecClient \<Rightarrow> datetime \<Rightarrow> BacktestExecClient" where
  "day_rollover s time =
     (if day_number s \<noteq> dt_day time
      then collateral_inquiry
             (s\<lparr>day_number := dt_day time,
                account_cash_start_day := cash_balance (account s),
                account_cash_activity_day := 0\<rparr>)
      else s)"

definition iterate ::
  "(OrderType \<Rightarrow> int) \<Rightarrow> BacktestExecClient \<Rightarrow> datetime \<Rightarrow> error + BacktestExecClient" where
  "iterate enum_value s time =
     (let s1 = day_rollover s time
      in ebind (scan_orders enum_value time (working_orders s1) s1) (\<lambda>s2.
           Inr (s2\<lparr>iteration := iteration s2 + 1\<rparr>)))"

subsection \<open>\<open>set_initial_iteration\<close>\<close>

text \<open>
  The module is compiled with \<open>boundscheck=False\<close>: a read of a list at an index past its
  end is not checked, and what the program does from there on is undefined. A call of
  \<open>set_initial_iteration\<close> therefore returns, raises, or makes such an unchecked read,
  where the model stops.
\<close>

datatype 'a outcome = Returned 'a | Raised error | UncheckedRead

text \<open>
  The \<open>while\<close> loop, on the local variables \<open>current\<close> and \<open>next_index\<close> and the field
  \<open>iteration\<close>. It need not terminate, so its result is an option: \<open>None\<close> when the loop
  runs forever.
\<close>

partial_function (option) wind ::
  "datetime list \<Rightarrow> datetime \<Rightarrow> timedelta \<Rightarrow> datetime \<Rightarrow> nat \<Rightarrow> nat
     \<Rightarrow> (datetime \<times> nat) outcome option" where
  "wind idx to_time time_step current next_index iter =
     (if current < to_time then
        (if next_index < length idx then
           (case timestamp_add current time_step of
              Inl e \<Rightarrow> Some (Raised e)
            | Inr advanced \<Rightarrow>
                wind idx to_time time_step advanced
                  (if idx ! next_index = current then next_index + 1 else next_index)
                  (if idx ! next_index = current then iter + 1 else iter))
         else Some UncheckedRead)
      else Some (Returned (current, iter)))"

definition set_initial_iteration ::
  "BacktestExecClient \<Rightarrow> datetime \<Rightarrow> timedelta \<Rightarrow> BacktestExecClient outcome option" where
  "set_initial_iteration s to_time time_step =
     (case data_minute_index s of
        [] \<Rightarrow> Some UncheckedRead
      | first # _ \<Rightarrow>
          (case wind (data_minute_index s) to_time time_step first 0 (iteration s) of
             None \<Rightarrow> None
           | Some (Returned (current, iter)) \<Rightarrow>
               Some (Returned (s\<lparr>iteration := iter, clock_time := current\<rparr>))
           | Some (Raised e) \<Rightarrow> Some (Raised e)
           | Some UncheckedRead \<Rightarrow> Some UncheckedRead))"

subsection \<open>Reading events\<close>

fun is_OrderCancelReject :: "Event \<Rightarrow> bool" where
  "is_OrderCancelReject (OrderCancelReject sy oid t code reason g ts) = True"
| "is_OrderCancelReject _ = False"

fun is_OrderModified :: "Event \<Rightarrow> bool" where
  "is_OrderModified (OrderModified sy oid bid p t g ts) = True"
| "is_OrderModified _ = False"

fun is_OrderFilled :: "Event \<Rightarrow> bool" where
  "is_OrderFilled (OrderFilled sy oid ex tk sd q p t g ts) = True"
| "is_OrderFilled _ = False"

fun is_OrderExpired :: "Event \<Rightarrow> bool" where
  "is_OrderExpired (OrderExpired sy oid et g ts) = True"
| "is_OrderExpired _ = False"

fun is_AccountEvent :: "Event \<Rightarrow> bool" where
  "is_AccountEvent (AccountEvent snapshot g ts) = True"
| "is_AccountEvent _ = False"

fun event_order_id :: "Event \<Rightarrow> OrderId option" where
  "event_order_id (OrderSubmitted sy oid t g ts) = Some oid"
| "event_order_id (OrderAccepted sy oid t g ts) = Some oid"
| "event_order_id (OrderRejected sy oid t reason g ts) = Some oid"
| "event_order_id (OrderWorking sy oid bid lb sd ty q p tif t g ts et) = Some oid"
| "event_order_id (OrderCancelled sy oid t g ts) = Some oid"
| "event_order_id (OrderModified sy oid bid p t g ts) = Some oid"
| "event_order_id (OrderCancelReject sy oid t code reason g ts) = Some oid"
| "event_order_id (OrderExpired sy oid et g ts) = Some oid"
| "event_order_id (OrderFilled sy oid ex tk sd q p t g ts) = Some oid"
| "event_order_id (AccountEvent snapshot g ts) = None"

fun event_timestamp :: "Event \<Rightarrow> datetime" where
  "event_timestamp (OrderSubmitted sy oid t g ts) = ts"
| "event_timestamp (OrderAccepted sy oid t g ts) = ts"
| "event_timestamp (OrderRejected sy oid t reason g ts) = ts"
| "event_timestamp (OrderWorking sy oid bid lb sd ty q p tif t g ts et) = ts"
| "event_timestamp (OrderCancelled sy oid t g ts) = ts"
| "event_timestamp (OrderModified sy oid bid p t g ts) = ts"
| "event_timestamp (OrderCancelReject sy oid t code reason g ts) = ts"
| "event_timestamp (OrderExpired sy oid et g ts) = ts"
| "event_timestamp (OrderFilled sy oid ex tk sd q p t g ts) = ts"
| "event_timestamp (AccountEvent snapshot g ts) = ts"

text \<open>The \<open>expired_time\<close> of an \<open>OrderExpired\<close> event.\<close>

fun expired_time :: "Event \<Rightarrow> datetime option" where
  "expired_time (OrderExpired sy oid et g ts) = et"
| "expired_time _ = None"

subsection \<open>Notions used to state the properties\<close>

text \<open>
  From the spec, section 4.5.3: the price checks under which an order is refused, as a
  predicate of the side, the type, the order's price and the closing quote (the closing
  ask for a BUY, the closing bid for a SELL). A MARKET order has no such check.
\<close>

definition spec_admission_rejects :: "OrderSide \<Rightarrow> OrderType \<Rightarrow> Price \<Rightarrow> Price \<Rightarrow> bool" where
  "spec_admission_rejects sd ty p closing =
     (case (sd, ty) of
        (BUY, STOP_MARKET) \<Rightarrow> p < closing
      | (BUY, STOP_LIMIT) \<Rightarrow> p < closing
      | (BUY, MIT) \<Rightarrow> p < closing
      | (BUY, LIMIT) \<Rightarrow> p > closing
      | (SELL, STOP_MARKET) \<Rightarrow> p > closing
      | (SELL, STOP_LIMIT) \<Rightarrow> p > closing
      | (SELL, MIT) \<Rightarrow> p > closing
      | (SELL, LIMIT) \<Rightarrow> p < closing
      | (_, MARKET) \<Rightarrow> False)"

text \<open>The closing quote that \<open>submit_order\<close> and \<open>modify_order\<close> read for an order.\<close>

definition closing_quote :: "BacktestExecClient \<Rightarrow> Order \<Rightarrow> error + Price" where
  "closing_quote s order =
     (case side order of BUY \<Rightarrow> get_closing_ask s (symbol order)
                       | SELL \<Rightarrow> get_closing_bid s (symbol order))"

text \<open>The client after \<open>submit_order\<close> has registered the order and sent its first two events.\<close>

definition accepted_state :: "BacktestExecClient \<Rightarrow> Order \<Rightarrow> GUID \<Rightarrow> BacktestExecClient" where
  "accepted_state s order strategy_id =
     s\<lparr>guid_count := Suc (Suc (guid_count s)),
       order_index := (order_index s)(order_id order \<mapsto> strategy_id),
       events := events s @
         [OrderSubmitted (symbol order) (order_id order) (clock_time s) (guid_count s) (clock_time s),
          OrderAccepted (symbol order) (order_id order) (clock_time s) (Suc (guid_count s))
            (clock_time s)]\<rparr>"

text \<open>
  The test under which the loop body of \<open>iterate\<close> fills an order: the conditions of
  \<open>scan_order\<close> without their effects.
\<close>

definition scan_fill_condition ::
  "(OrderType \<Rightarrow> int) \<Rightarrow> BacktestExecClient \<Rightarrow> Order \<Rightarrow> error + bool" where
  "scan_fill_condition enum_value s order =
     (case side order of
        BUY \<Rightarrow>
          ebind (get_highest_ask s (symbol order)) (\<lambda>highest_ask.
            if scan_stop_condition enum_value (order_type order) then
              ebind (price_of order) (\<lambda>p. Inr (highest_ask \<ge> p))
            else if order_type order = LIMIT then
              ebind (price_of order) (\<lambda>p. Inr (highest_ask < p))
            else Inr False)
      | SELL \<Rightarrow>
          ebind (get_lowest_bid s (symbol order)) (\<lambda>lowest_bid.
            if scan_stop_condition enum_value (order_type order) then
              ebind (price_of order) (\<lambda>p. Inr (lowest_bid \<le> p))
            else if order_type order = LIMIT then
              ebind (price_of order) (\<lambda>p. Inr (lowest_bid > p))
            else Inr False))"

text \<open>
  An event is the one that the loop body sends for an order: it names the order and
  carries the clock's time as its timestamp; it is an \<open>OrderFilled\<close> of an order whose fill
  test holds, or an \<open>OrderExpired\<close> of an order whose fill test fails and whose expiry time
  has been reached, with that expiry time as its \<open>expired_time\<close>.
\<close>

definition scan_event_of ::
  "(OrderType \<Rightarrow> int) \<Rightarrow> datetime \<Rightarrow> BacktestExecClient \<Rightarrow> Order \<Rightarrow> Event \<Rightarrow> bool" where
  "scan_event_of enum_value time s order e =
     (event_order_id e = Some (order_id order) \<and> event_timestamp e = clock_time s \<and>
      (if is_OrderFilled e then scan_fill_condition enum_value s order = Inr True
       else is_OrderExpired e \<and> scan_fill_condition enum_value s order = Inr False \<and>
            expired_time e = expire_time order \<and>
            (case expire_time order of None \<Rightarrow> False | Some et \<Rightarrow> et \<le> time)))"

text \<open>The fields that the loop body of \<open>iterate\<close> does not assign.\<close>

definition scan_frame :: "BacktestExecClient \<Rightarrow> BacktestExecClient \<Rightarrow> bool" where
  "scan_frame s s' =
     (data_bars_ask s' = data_bars_ask s \<and> data_bars_bid s' = data_bars_bid s \<and>
      iteration s' = iteration s \<and> clock_time s' = clock_time s \<and>
      day_number s' = day_number s \<and> account s' = account s \<and>
      account_cash_start_day s' = account_cash_start_day s \<and>
      account_cash_activity_day s' = account_cash_activity_day s \<and>
      data_minute_index s' = data_minute_index s)"

text \<open>A run of \<open>iterate\<close> over successive timestamps, as the driver makes it.\<close>

primrec run_iterate ::
  "(OrderType \<Rightarrow> int) \<Rightarrow> BacktestExecClient \<Rightarrow> datetime list \<Rightarrow> error + BacktestExecClient" where
  "run_iterate enum_value s [] = Inr s"
| "run_iterate enum_value s (time # later) =
     ebind (iterate enum_value s time) (\<lambda>s'. run_iterate enum_value s' later)"

text \<open>
  The number of timestamps of a run whose day of the month differs from the recorded
  one, which is the day of the month of the timestamp before (\<open>d\<close> for the first).
\<close>

primrec day_changes :: "int \<Rightarrow> datetime list \<Rightarrow> nat" where
  "day_changes d [] = 0"
| "day_changes d (time # later) =
     (if d \<noteq> dt_day time then 1 else 0) + day_changes (dt_day time) later"

subsection \<open>The spec's account of \<open>set_initial_iteration\<close>\<close>



subsection \<open>A small market for the examples\<close>

text \<open>
  One instrument with tick size 0.0001 and a slippage of one tick, three one-minute bars
  from 2019-01-05T00:00:00 UTC, a starting capital of 1 000 000, as \<open>__init__\<close> leaves the
  client once the bars are prepared.
\<close>

definition EURUSD :: Symbol where
  "EURUSD = ''EURUSD''"

definition minute :: timedelta where
  "minute = 60000000"

definition jan5 :: datetime where
  "jan5 = 737063 * usec_per_day"

definition feb5 :: datetime where
  "feb5 = 737094 * usec_per_day"

definition jan6 :: datetime where
  "jan6 = 737064 * usec_per_day"

definition example_client :: BacktestExecClient where
  "example_client =
     set_slippage_index
       \<lparr>instruments = [EURUSD \<mapsto> \<lparr>tick_size = 1 / 10000, tick_precision = 4\<rparr>],
        data_bars_bid = [EURUSD \<mapsto>
          [Bar (10997 / 10000) (11001 / 10000) (10995 / 10000) (10999 / 10000),
           Bar (10999 / 10000) (11021 / 10000) (10998 / 10000) (11019 / 10000),
           Bar (11019 / 10000) (11020 / 10000) (10989 / 10000) (10990 / 10000)]],
        data_bars_ask = [EURUSD \<mapsto>
          [Bar (10998 / 10000) (11002 / 10000) (10996 / 10000) (11000 / 10000),
           Bar (11000 / 10000) (11022 / 10000) (10999 / 10000) (11020 / 10000),
           Bar (11020 / 10000) (11021 / 10000) (10990 / 10000) (10991 / 10000)]],
        data_minute_index = [jan5, jan5 + minute, jan5 + 2 * minute],
        iteration = 0,
        day_number = 0,
        account_cash_start_day = 1000000,
        account_cash_activity_day = 0,
        slippage_index = Map.empty,
        working_orders = [],
        positions_count = Map.empty,
        positions = Map.empty,
        completed_positions = Map.empty,
        account = \<lparr>account_id = ''SIMULATED-9999'', broker = ''SIMULATED'',
                    account_number = ''9999'', currency = ''USD'', cash_balance = 1000000,
                    margin_used_liquidation = 0, margin_used_maintenance = 0,
                    margin_ratio = 0, margin_call_status = ''NONE''\<rparr>,
        clock_time = jan5,
        guid_count = 1,
        order_index = Map.empty,
        events = []\<rparr>
       1"

definition example_order :: "OrderSide \<Rightarrow> OrderType \<Rightarrow> Price option \<Rightarrow> datetime option \<Rightarrow> Order" where
  "example_order sd ty p et =
     \<lparr>order_id = ''O-1'', symbol = EURUSD, side = sd, order_type = ty, quantity = 100000,
      price = p, label = ''E1'', time_in_force = (if et = None then ''DAY'' else ''GTD''),
      expire_time = et, broker_id = None\<rparr>"

text \<open>The integer values 0 to 4 for the order types, in the order in which the spec lists them.\<close>

definition example_enum_value :: "OrderType \<Rightarrow> int" where
  "example_enum_value ty =
     (case ty of MARKET \<Rightarrow> 0 | LIMIT \<Rightarrow> 1 | STOP_MARKET \<Rightarrow> 2 | STOP_LIMIT \<Rightarrow> 3 | MIT \<Rightarrow> 4)"

text \<open>The example client with one order resting in \<open>working_orders\<close>.\<close>

definition example_working :: "Order \<Rightarrow> BacktestExecClient" where
  "example_working order = example_client\<lparr>working_orders := [(order_id order, order)]\<rparr>"

definition buy_market :: Order where
  "buy_market = example_order BUY MARKET None None"

definition buy_stop_10990 :: Order where
  "buy_stop_10990 = example_order BUY STOP_MARKET (Some (10990 / 10000)) None"

definition buy_stop_11010 :: Order where
  "buy_stop_11010 = example_order BUY STOP_MARKET (Some (11010 / 10000)) None"

definition buy_limit_11000 :: Order where
  "buy_limit_11000 = example_order BUY LIMIT (Some (11000 / 10000)) None"

text \<open>
  Two resting BUY STOP orders that expire thirty seconds after the first bar opens: one
  above the bar's highest ask of 1.1002, one below it.
\<close>

definition buy_stop_11010_gtd :: Order where
  "buy_stop_11010_gtd =
     example_order BUY STOP_MARKET (Some (11010 / 10000)) (Some (jan5 + 30000000))"

definition buy_stop_11001_gtd :: Order where
  "buy_stop_11001_gtd =
     example_order BUY STOP_MARKET (Some (11001 / 10000)) (Some (jan5 + 30000000))"

section \<open>Properties\<close>

subsection \<open>Basic facts\<close>

lemma ebind_Inl [simp]: "ebind (Inl e) f = Inl e"
  by (simp add: ebind_def)

lemma ebind_Inr [simp]: "ebind (Inr x) f = f x"
  by (simp add: ebind_def)

lemma ebind_eq_Inr: "ebind m f = Inr y \<longleftrightarrow> (\<exists>x. m = Inr x \<and> f x = Inr y)"
  by (cases m) simp_all

lemma update_fresh: "k \<notin> fst ` set al \<Longrightarrow> AList.update k v al = al @ [(k, v)]"
  by (induction al) auto

lemma reject_order_eq:
  "reject_order s order reason =
     s\<lparr>guid_count := Suc (guid_count s),
       events := events s @ [OrderRejected (symbol order) (order_id order) (clock_time s)
                               reason (guid_count s) (clock_time s)]\<rparr>"
  by (simp add: reject_order_def generate_def on_event_def time_now_def)

lemma reject_modify_order_eq:
  "reject_modify_order s order reason =
     s\<lparr>guid_count := Suc (guid_count s),
       events := events s @ [OrderCancelReject (symbol order) (order_id order) (clock_time s)
                               ''INVALID PRICE'' reason (guid_count s) (clock_time s)]\<rparr>"
  by (simp add: reject_modify_order_def generate_def on_event_def time_now_def)

lemma order_modified_eq:
  "order_modified s order new_price =
     s\<lparr>guid_count := Suc (guid_count s),
       events := events s @ [OrderModified (symbol order) (order_id order) (broker_id order)
                               new_price (clock_time s) (guid_count s) (clock_time s)]\<rparr>"
  by (simp add: order_modified_def generate_def on_event_def time_now_def)

lemma order_becomes_working_eq:
  "order_becomes_working s order =
     s\<lparr>working_orders := AList.update (order_id order) order (working_orders s),
       guid_count := Suc (guid_count s),
       events := events s @ [OrderWorking (symbol order) (order_id order) (''B'' @ order_id order)
                     (label order) (side order) (order_type order) (quantity order)
                     (price order) (time_in_force order) (clock_time s) (guid_count s)
                     (clock_time s) (expire_time order)]\<rparr>"
  by (simp add: order_becomes_working_def generate_def on_event_def time_now_def)

lemma adjust_positions_frame:
  "events (adjust_positions s sy sd q ts) = events s"
  "working_orders (adjust_positions s sy sd q ts) = working_orders s"
  "guid_count (adjust_positions s sy sd q ts) = Suc (guid_count s)"
  "clock_time (adjust_positions s sy sd q ts) = clock_time s"
  "iteration (adjust_positions s sy sd q ts) = iteration s"
  "data_bars_bid (adjust_positions s sy sd q ts) = data_bars_bid s"
  "data_bars_ask (adjust_positions s sy sd q ts) = data_bars_ask s"
  "slippage_index (adjust_positions s sy sd q ts) = slippage_index s"
  "account (adjust_positions s sy sd q ts) = account s"
  "day_number (adjust_positions s sy sd q ts) = day_number s"
  "account_cash_start_day (adjust_positions s sy sd q ts) = account_cash_start_day s"
  "account_cash_activity_day (adjust_positions s sy sd q ts) = account_cash_activity_day s"
  "data_minute_index (adjust_positions s sy sd q ts) = data_minute_index s"
  by (simp_all add: adjust_positions_def generate_def Let_def)

lemma fill_order_frame:
  "events (fill_order s order p) =
     events s @ [OrderFilled (symbol order) (order_id order) (''E'' @ order_id order)
                   (''ET'' @ order_id order) (side order) (quantity order) p
                   (clock_time s) (guid_count s) (clock_time s)]"
  "working_orders (fill_order s order p) = working_orders s"
  "guid_count (fill_order s order p) = Suc (Suc (guid_count s))"
  "clock_time (fill_order s order p) = clock_time s"
  "iteration (fill_order s order p) = iteration s"
  "data_bars_bid (fill_order s order p) = data_bars_bid s"
  "data_bars_ask (fill_order s order p) = data_bars_ask s"
  "slippage_index (fill_order s order p) = slippage_index s"
  "account (fill_order s order p) = account s"
  "day_number (fill_order s order p) = day_number s"
  "account_cash_start_day (fill_order s order p) = account_cash_start_day s"
  "account_cash_activity_day (fill_order s order p) = account_cash_activity_day s"
  "data_minute_index (fill_order s order p) = data_minute_index s"
  by (simp_all add: fill_order_def adjust_positions_frame generate_def on_event_def time_now_def)

subsection \<open>Unfolding the examples\<close>

lemmas example_defs = example_working_def example_client_def example_order_def
  set_slippage_index_def EURUSD_def buy_stop_11010_def buy_stop_10990_def
  buy_limit_11000_def buy_market_def buy_stop_11010_gtd_def buy_stop_11001_gtd_def

lemmas cursor_defs = get_closing_ask_def get_closing_bid_def get_highest_ask_def
  get_lowest_bid_def bar_at_def dict_get_def

lemmas calendar_defs = dt_day_def toordinal_def ord2ymd_def usec_per_day_def Let_def
  DAYS_BEFORE_MONTH_def DAYS_IN_MONTH_def

lemma dt_day_jan5: "dt_day jan5 = 5"
  by (simp add: jan5_def calendar_defs)

lemma dt_day_feb5: "dt_day feb5 = 5"
  by (simp add: feb5_def calendar_defs)

lemma example_working_simps:
  "working_orders (example_working order) = [(order_id order, order)]"
  "slippage_index (example_working order) EURUSD = Some (1 / 10000)"
  "events (example_working order) = []"
  "clock_time (example_working order) = jan5"
  "guid_count (example_working order) = 1"
  "iteration (example_working order) = 0"
  "day_number (example_working order) = 0"
  "account_cash_start_day (example_working order) = 1000000"
  "account_cash_activity_day (example_working order) = 0"
  "cash_balance (account (example_working order)) = 1000000"
  by (simp_all add: example_working_def example_client_def set_slippage_index_def EURUSD_def)

lemma example_working_quotes:
  "get_highest_ask (example_working order) EURUSD = Inr (11002 / 10000)"
  "get_lowest_bid (example_working order) EURUSD = Inr (10995 / 10000)"
  "get_closing_ask (example_working order) EURUSD = Inr (11000 / 10000)"
  "get_closing_bid (example_working order) EURUSD = Inr (10999 / 10000)"
  by (simp_all add: example_working_def example_client_def set_slippage_index_def EURUSD_def
        cursor_defs)

subsection \<open>\<open>modify_order\<close>\<close>

lemma modify_order_outcome:
  assumes "modify_order s order new_price = Inr s'"
  shows "\<exists>e. (is_OrderCancelReject e \<or> is_OrderModified e) \<and>
             s' = s\<lparr>guid_count := Suc (guid_count s), events := events s @ [e]\<rparr>"
proof -
  let ?rej = "\<lambda>r. s\<lparr>guid_count := Suc (guid_count s),
       events := events s @ [OrderCancelReject (symbol order) (order_id order) (clock_time s)
                               ''INVALID PRICE'' r (guid_count s) (clock_time s)]\<rparr>"
  let ?mod = "s\<lparr>guid_count := Suc (guid_count s),
       events := events s @ [OrderModified (symbol order) (order_id order) (broker_id order)
                               new_price (clock_time s) (guid_count s) (clock_time s)]\<rparr>"
  have "s' = ?mod \<or> (\<exists>r. s' = ?rej r)"
    using assms
    unfolding modify_order_def reject_modify_order_eq order_modified_eq
    by (simp split: if_splits OrderSide.splits add: ebind_eq_Inr) blast+
  then show ?thesis
  proof
    assume "s' = ?mod"
    then show ?thesis
      by (intro exI [of _ "OrderModified (symbol order) (order_id order) (broker_id order)
                               new_price (clock_time s) (guid_count s) (clock_time s)"]) simp
  next
    assume "\<exists>r. s' = ?rej r"
    then obtain r where "s' = ?rej r" ..
    then show ?thesis
      by (intro exI [of _ "OrderCancelReject (symbol order) (order_id order) (clock_time s)
                               ''INVALID PRICE'' r (guid_count s) (clock_time s)"]) simp
  qed
qed

text \<open>
  C9. \<open>modify_order\<close> leaves the working orders, the position maps and the account as they
  were: whenever it returns, the new state is the old one with a single event appended,
  an \<open>OrderCancelReject\<close> or an \<open>OrderModified\<close>, and one identifier taken from the GUID
  factory.
\<close>

theorem modify_order_frame:
  assumes "modify_order s order new_price = Inr s'"
  shows "working_orders s' = working_orders s \<and>
         positions_count s' = positions_count s \<and>
         positions s' = positions s \<and>
         completed_positions s' = completed_positions s \<and>
         account s' = account s \<and>
         (\<exists>e. (is_OrderCancelReject e \<or> is_OrderModified e) \<and>
              s' = s\<lparr>guid_count := Suc (guid_count s), events := events s @ [e]\<rparr>)"
  using modify_order_outcome [OF assms] by auto

theorem modify_order_frame_witness:
  "modify_order (example_working buy_stop_11010) buy_stop_11010 (10990 / 10000) =
     Inr ((example_working buy_stop_11010)
            \<lparr>guid_count := 2,
             events := [OrderModified EURUSD ''O-1'' None (10990 / 10000) jan5 1 jan5]\<rparr>)
   \<and> working_orders ((example_working buy_stop_11010)
            \<lparr>guid_count := 2,
             events := [OrderModified EURUSD ''O-1'' None (10990 / 10000) jan5 1 jan5]\<rparr>)
       = [(''O-1'', buy_stop_11010)]"
proof -
  have h: "modify_order (example_working buy_stop_11010) buy_stop_11010 (10990 / 10000) =
     Inr ((example_working buy_stop_11010)
            \<lparr>guid_count := 2,
             events := [OrderModified EURUSD ''O-1'' None (10990 / 10000) jan5 1 jan5]\<rparr>)"
    by (simp add: modify_order_def example_defs cursor_defs price_of_def order_modified_eq)
  show ?thesis
    using h modify_order_frame [OF h] by (simp add: example_defs)
qed

text \<open>
  C3. For an order whose id is working, \<open>modify_order\<close> applies the admission check of
  section 4.5.3 to \<open>order.price\<close> and the closing quote, whatever \<open>new_price\<close> is: it sends
  one \<open>OrderCancelReject\<close> with the code \<open>INVALID PRICE\<close> when the check refuses the price,
  and one \<open>OrderModified\<close> carrying \<open>new_price\<close> otherwise.
\<close>

theorem modify_order_validates_order_price:
  assumes "order_id order \<in> fst ` set (working_orders s)"
      and "closing_quote s order = Inr closing"
      and "order_type order \<noteq> MARKET \<longrightarrow> price order = Some p"
  shows "\<exists>reason. modify_order s order new_price =
           Inr (s\<lparr>guid_count := Suc (guid_count s),
                  events := events s @
                    [if spec_admission_rejects (side order) (order_type order) p closing
                     then OrderCancelReject (symbol order) (order_id order) (clock_time s)
                            ''INVALID PRICE'' reason (guid_count s) (clock_time s)
                     else OrderModified (symbol order) (order_id order) (broker_id order)
                            new_price (clock_time s) (guid_count s) (clock_time s)]\<rparr>)"
proof (cases "side order")
  case BUY
  with assms(2) have q: "get_closing_ask s (symbol order) = Inr closing"
    by (simp add: closing_quote_def)
  show ?thesis
    using assms(1,3) BUY q
    by (cases "order_type order")
       (auto simp: modify_order_def spec_admission_rejects_def price_of_def
          reject_modify_order_eq order_modified_eq)
next
  case SELL
  with assms(2) have q: "get_closing_bid s (symbol order) = Inr closing"
    by (simp add: closing_quote_def)
  show ?thesis
    using assms(1,3) SELL q
    by (cases "order_type order")
       (auto simp: modify_order_def spec_admission_rejects_def price_of_def
          reject_modify_order_eq order_modified_eq)
qed

theorem modify_order_validates_order_price_witness:
  "order_id buy_stop_11010 \<in> fst ` set (working_orders ((example_working buy_stop_11010)\<lparr>iteration := 1\<rparr>))
   \<and> closing_quote ((example_working buy_stop_11010)\<lparr>iteration := 1\<rparr>) buy_stop_11010 = Inr (11020 / 10000)
   \<and> price buy_stop_11010 = Some (11010 / 10000)
   \<and> (\<exists>reason. modify_order ((example_working buy_stop_11010)\<lparr>iteration := 1\<rparr>) buy_stop_11010 (11030 / 10000) =
         Inr ((example_working buy_stop_11010)
                \<lparr>iteration := 1, guid_count := 2,
                 events := [OrderCancelReject EURUSD ''O-1'' jan5 ''INVALID PRICE'' reason 1 jan5]\<rparr>))"
proof -
  let ?s = "(example_working buy_stop_11010)\<lparr>iteration := 1\<rparr>"
  have h1: "order_id buy_stop_11010 \<in> fst ` set (working_orders ?s)"
    by (simp add: example_defs)
  have h2: "closing_quote ?s buy_stop_11010 = Inr (11020 / 10000)"
    by (simp add: closing_quote_def example_defs cursor_defs)
  have h3: "order_type buy_stop_11010 \<noteq> MARKET \<longrightarrow> price buy_stop_11010 = Some (11010 / 10000)"
    by (simp add: example_defs)
  have rej: "spec_admission_rejects (side buy_stop_11010) (order_type buy_stop_11010)
               (11010 / 10000) (11020 / 10000)"
    by (simp add: spec_admission_rejects_def example_defs)
  have proj: "symbol buy_stop_11010 = EURUSD" "order_id buy_stop_11010 = ''O-1''"
      "clock_time ?s = jan5" "guid_count ?s = 1" "events ?s = []"
      "price buy_stop_11010 = Some (11010 / 10000)"
    by (simp_all add: example_defs)
  show ?thesis
    using rej proj h1 h2 modify_order_validates_order_price [OF h1 h2 h3, of "11030 / 10000"]
    by (simp add: numeral_2_eq_2)
qed

subsection \<open>\<open>submit_order\<close>\<close>

lemma accepted_state_frame:
  "get_closing_ask (accepted_state s order strategy_id) sy = get_closing_ask s sy"
  "get_closing_bid (accepted_state s order strategy_id) sy = get_closing_bid s sy"
  "slippage_index (accepted_state s order strategy_id) = slippage_index s"
  "working_orders (accepted_state s order strategy_id) = working_orders s"
  "clock_time (accepted_state s order strategy_id) = clock_time s"
  "guid_count (accepted_state s order strategy_id) = Suc (Suc (guid_count s))"
  by (simp_all add: accepted_state_def get_closing_ask_def get_closing_bid_def)

lemma submit_order_unfold:
  assumes "order_id order \<notin> fst ` set (working_orders s)"
  shows "submit_order s order strategy_id =
     (let s5 = accepted_state s order strategy_id
      in case side order of
             BUY \<Rightarrow>
               ebind (get_closing_ask s (symbol order)) (\<lambda>closing_ask.
                 if order_type order = MARKET then
                   ebind (dict_get (slippage_index s) (symbol order)) (\<lambda>slip.
                     Inr (fill_order s5 order (closing_ask + slip)))
                 else if order_type order = STOP_MARKET \<or> order_type order = STOP_LIMIT
                         \<or> order_type order = MIT then
                   ebind (price_of order) (\<lambda>p.
                     if p < closing_ask
                     then Inr (reject_order s5 order (BuyStopBelowAsk p closing_ask))
                     else Inr (order_becomes_working s5 order))
                 else if order_type order = LIMIT then
                   ebind (price_of order) (\<lambda>p.
                     if p > closing_ask
                     then Inr (reject_order s5 order (BuyLimitAboveAsk p closing_ask))
                     else Inr (order_becomes_working s5 order))
                 else Inr (order_becomes_working s5 order))
           | SELL \<Rightarrow>
               ebind (get_closing_bid s (symbol order)) (\<lambda>closing_bid.
                 if order_type order = MARKET then
                   ebind (dict_get (slippage_index s) (symbol order)) (\<lambda>slip.
                     Inr (fill_order s5 order (closing_bid - slip)))
                 else if order_type order = STOP_MARKET \<or> order_type order = STOP_LIMIT
                         \<or> order_type order = MIT then
                   ebind (price_of order) (\<lambda>p.
                     if p > closing_bid
                     then Inr (reject_order s5 order (SellStopAboveBid p closing_bid))
                     else Inr (order_becomes_working s5 order))
                 else if order_type order = LIMIT then
                   ebind (price_of order) (\<lambda>p.
                     if p < closing_bid
                     then Inr (reject_order s5 order (SellLimitBelowBid p closing_bid))
                     else Inr (order_becomes_working s5 order))
                 else Inr (order_becomes_working s5 order)))"
proof -
  let ?s1 = "register_order order strategy_id s"
  let ?s3 = "on_event (OrderSubmitted (symbol order) (order_id order) (time_now ?s1)
                         (fst (generate ?s1)) (time_now (snd (generate ?s1))))
               (snd (generate ?s1))"
  have s5: "on_event (OrderAccepted (symbol order) (order_id order) (time_now ?s3)
                        (fst (generate ?s3)) (time_now (snd (generate ?s3))))
              (snd (generate ?s3))
            = accepted_state s order strategy_id"
    by (simp add: accepted_state_def generate_def on_event_def time_now_def register_order_def)
  show ?thesis
    using assms
    by (simp add: submit_order_def Let_def case_prod_beta s5 accepted_state_frame
             del: ebind_Inl ebind_Inr cong: OrderSide.case_cong if_cong)
qed


text \<open>
  C4. When the order id is not working, every outcome of \<open>submit_order\<close> starts with
  \<open>OrderSubmitted\<close> and \<open>OrderAccepted\<close>. For a STOP_MARKET, STOP_LIMIT or MIT order the
  third event is \<open>OrderRejected\<close>, and the working orders are unchanged, exactly when the
  price is below the closing ask (BUY) or above the closing bid (SELL); otherwise the
  order is appended to the working orders and the third and last event is one
  \<open>OrderWorking\<close> whose broker id is \<open>B\<close> followed by the order id.
\<close>

theorem submit_order_stop_admission:
  assumes "order_id order \<notin> fst ` set (working_orders s)"
  shows "(\<forall>s'. submit_order s order strategy_id = Inr s' \<longrightarrow>
            (\<exists>rest. events s' = events s @
               OrderSubmitted (symbol order) (order_id order) (clock_time s) (guid_count s)
                 (clock_time s)
               # OrderAccepted (symbol order) (order_id order) (clock_time s)
                   (Suc (guid_count s)) (clock_time s)
               # rest))
       \<and> ((order_type order = STOP_MARKET \<or> order_type order = STOP_LIMIT
            \<or> order_type order = MIT)
           \<and> price order = Some p \<and> closing_quote s order = Inr closing \<longrightarrow>
          (\<exists>s' reason. submit_order s order strategy_id = Inr s' \<and>
             (if (case side order of BUY \<Rightarrow> p < closing | SELL \<Rightarrow> p > closing)
              then working_orders s' = working_orders s \<and>
                   events s' = events s @
                     [OrderSubmitted (symbol order) (order_id order) (clock_time s)
                        (guid_count s) (clock_time s),
                      OrderAccepted (symbol order) (order_id order) (clock_time s)
                        (Suc (guid_count s)) (clock_time s),
                      OrderRejected (symbol order) (order_id order) (clock_time s) reason
                        (Suc (Suc (guid_count s))) (clock_time s)]
              else working_orders s' = working_orders s @ [(order_id order, order)] \<and>
                   events s' = events s @
                     [OrderSubmitted (symbol order) (order_id order) (clock_time s)
                        (guid_count s) (clock_time s),
                      OrderAccepted (symbol order) (order_id order) (clock_time s)
                        (Suc (guid_count s)) (clock_time s),
                      OrderWorking (symbol order) (order_id order) (''B'' @ order_id order)
                        (label order) (side order) (order_type order) (quantity order)
                        (price order) (time_in_force order) (clock_time s)
                        (Suc (Suc (guid_count s))) (clock_time s) (expire_time order)])))"
proof (intro conjI allI impI)
  fix s'
  assume r: "submit_order s order strategy_id = Inr s'"
  let ?s5 = "accepted_state s order strategy_id"
  have ev5: "events ?s5 = events s @
         [OrderSubmitted (symbol order) (order_id order) (clock_time s) (guid_count s) (clock_time s),
          OrderAccepted (symbol order) (order_id order) (clock_time s) (Suc (guid_count s))
            (clock_time s)]"
    by (simp add: accepted_state_def)
  have "(\<exists>fp. s' = fill_order ?s5 order fp) \<or> (\<exists>reason. s' = reject_order ?s5 order reason)
        \<or> s' = order_becomes_working ?s5 order"
    using r unfolding submit_order_unfold [OF assms] Let_def
    by (simp split: OrderSide.splits if_splits add: ebind_eq_Inr) blast+
  then show "\<exists>rest. events s' = events s @
               OrderSubmitted (symbol order) (order_id order) (clock_time s) (guid_count s)
                 (clock_time s)
               # OrderAccepted (symbol order) (order_id order) (clock_time s)
                   (Suc (guid_count s)) (clock_time s)
               # rest"
    by (auto simp: fill_order_frame reject_order_eq order_becomes_working_eq ev5)
next
  assume h: "(order_type order = STOP_MARKET \<or> order_type order = STOP_LIMIT
            \<or> order_type order = MIT)
           \<and> price order = Some p \<and> closing_quote s order = Inr closing"
  then have ty: "order_type order \<noteq> MARKET"
      "order_type order = STOP_MARKET \<or> order_type order = STOP_LIMIT \<or> order_type order = MIT"
    and p: "price_of order = Inr p"
    by (auto simp: price_of_def)
  let ?s5 = "accepted_state s order strategy_id"
  show "\<exists>s' reason. submit_order s order strategy_id = Inr s' \<and>
             (if (case side order of BUY \<Rightarrow> p < closing | SELL \<Rightarrow> p > closing)
              then working_orders s' = working_orders s \<and>
                   events s' = events s @
                     [OrderSubmitted (symbol order) (order_id order) (clock_time s)
                        (guid_count s) (clock_time s),
                      OrderAccepted (symbol order) (order_id order) (clock_time s)
                        (Suc (guid_count s)) (clock_time s),
                      OrderRejected (symbol order) (order_id order) (clock_time s) reason
                        (Suc (Suc (guid_count s))) (clock_time s)]
              else working_orders s' = working_orders s @ [(order_id order, order)] \<and>
                   events s' = events s @
                     [OrderSubmitted (symbol order) (order_id order) (clock_time s)
                        (guid_count s) (clock_time s),
                      OrderAccepted (symbol order) (order_id order) (clock_time s)
                        (Suc (guid_count s)) (clock_time s),
                      OrderWorking (symbol order) (order_id order) (''B'' @ order_id order)
                        (label order) (side order) (order_type order) (quantity order)
                        (price order) (time_in_force order) (clock_time s)
                        (Suc (Suc (guid_count s))) (clock_time s) (expire_time order)])"
  proof (cases "side order")
    case BUY
    with h have q: "get_closing_ask s (symbol order) = Inr closing"
      by (simp add: closing_quote_def)
    show ?thesis
      unfolding submit_order_unfold [OF assms] Let_def
      using BUY q ty p assms
      by (auto simp: reject_order_eq order_becomes_working_eq accepted_state_def update_fresh)
  next
    case SELL
    with h have q: "get_closing_bid s (symbol order) = Inr closing"
      by (simp add: closing_quote_def)
    show ?thesis
      unfolding submit_order_unfold [OF assms] Let_def
      using SELL q ty p assms
      by (auto simp: reject_order_eq order_becomes_working_eq accepted_state_def update_fresh)
  qed
qed

theorem submit_order_stop_admission_witness:
  "order_id buy_stop_11010 \<notin> fst ` set (working_orders example_client)
   \<and> order_type buy_stop_11010 = STOP_MARKET
   \<and> price buy_stop_11010 = Some (11010 / 10000)
   \<and> closing_quote example_client buy_stop_11010 = Inr (11000 / 10000)
   \<and> (\<exists>s'. submit_order example_client buy_stop_11010 7 = Inr s' \<and>
         working_orders s' = [(''O-1'', buy_stop_11010)] \<and>
         events s' =
           [OrderSubmitted EURUSD ''O-1'' jan5 1 jan5,
            OrderAccepted EURUSD ''O-1'' jan5 2 jan5,
            OrderWorking EURUSD ''O-1'' ''BO-1'' ''E1'' BUY STOP_MARKET 100000
              (Some (11010 / 10000)) ''DAY'' jan5 3 jan5 None])
   \<and> closing_quote example_client buy_stop_10990 = Inr (11000 / 10000)
   \<and> (\<exists>s' reason. submit_order example_client buy_stop_10990 7 = Inr s' \<and>
         working_orders s' = [] \<and>
         events s' =
           [OrderSubmitted EURUSD ''O-1'' jan5 1 jan5,
            OrderAccepted EURUSD ''O-1'' jan5 2 jan5,
            OrderRejected EURUSD ''O-1'' jan5 reason 3 jan5])"
proof -
  have fresh: "order_id buy_stop_11010 \<notin> fst ` set (working_orders example_client)"
      "order_id buy_stop_10990 \<notin> fst ` set (working_orders example_client)"
    by (simp_all add: example_defs)
  have q: "closing_quote example_client buy_stop_11010 = Inr (11000 / 10000)"
      "closing_quote example_client buy_stop_10990 = Inr (11000 / 10000)"
    by (simp_all add: closing_quote_def example_defs cursor_defs)
  have proj:
      "order_type buy_stop_11010 = STOP_MARKET" "price buy_stop_11010 = Some (11010 / 10000)"
      "order_type buy_stop_10990 = STOP_MARKET" "price buy_stop_10990 = Some (10990 / 10000)"
      "side buy_stop_11010 = BUY" "side buy_stop_10990 = BUY"
      "symbol buy_stop_11010 = EURUSD" "symbol buy_stop_10990 = EURUSD"
      "order_id buy_stop_11010 = ''O-1''" "order_id buy_stop_10990 = ''O-1''"
      "label buy_stop_11010 = ''E1''" "quantity buy_stop_11010 = 100000"
      "time_in_force buy_stop_11010 = ''DAY''" "expire_time buy_stop_11010 = None"
      "working_orders example_client = []" "events example_client = []"
      "clock_time example_client = jan5" "guid_count example_client = 1"
    by (simp_all add: example_defs)
  show ?thesis
    using proj fresh q
      submit_order_stop_admission [OF fresh(1), of 7 "11010 / 10000" "11000 / 10000"]
      submit_order_stop_admission [OF fresh(2), of 7 "10990 / 10000" "11000 / 10000"]
    by (simp add: numeral_2_eq_2 numeral_3_eq_3)
qed

text \<open>
  C2. A MARKET BUY on the example client, whose closing ask is 1.1000: the event sink
  receives \<open>OrderSubmitted\<close>, \<open>OrderAccepted\<close> and \<open>OrderFilled\<close> at 1.1001 and nothing
  after the fill; the \<open>AccountEvent\<close> built by \<open>_adjust_positions\<close> is not among the events.
\<close>

theorem market_fill_emits_no_account_event:
  "map_sum id events (submit_order example_client buy_market 7) =
     Inr [OrderSubmitted EURUSD ''O-1'' jan5 1 jan5,
          OrderAccepted EURUSD ''O-1'' jan5 2 jan5,
          OrderFilled EURUSD ''O-1'' ''EO-1'' ''ETO-1'' BUY 100000 (11001 / 10000) jan5 3 jan5]"
proof -
  have fresh: "order_id buy_market \<notin> fst ` set (working_orders example_client)"
    by (simp add: example_defs)
  show ?thesis
    unfolding submit_order_unfold [OF fresh] Let_def
    by (simp add: fill_order_frame accepted_state_def example_defs cursor_defs)
qed

subsection \<open>\<open>iterate\<close>\<close>

text \<open>
  Two members of an enumeration have different integer values, so one of \<open>STOP_LIMIT\<close>
  and \<open>MIT\<close> is not zero and the first test of the scan holds for every order type.
\<close>

lemma scan_stop_condition_always:
  assumes "inj enum_value"
  shows "scan_stop_condition enum_value ty"
proof -
  have "enum_value STOP_LIMIT \<noteq> enum_value MIT"
    using assms by (auto dest: injD)
  then show ?thesis
    by (auto simp: scan_stop_condition_def)
qed

lemma example_stop_condition: "scan_stop_condition example_enum_value ty"
  by (simp add: scan_stop_condition_def example_enum_value_def)

text \<open>
  C1. A working BUY LIMIT at 1.1000 on a bar whose highest ask is 1.1002: the highest ask
  is not below the order's price, and the scan fills the order at 1.1001 through the test
  \<open>highest_ask >= order.price\<close> of the stop branch.
\<close>

theorem buy_limit_filled_by_stop_condition:
  "get_highest_ask ((example_working buy_limit_11000)\<lparr>day_number := 5\<rparr>) EURUSD = Inr (11002 / 10000)
   \<and> map_sum id events (iterate example_enum_value ((example_working buy_limit_11000)\<lparr>day_number := 5\<rparr>) jan5) =
     Inr [OrderFilled EURUSD ''O-1'' ''EO-1'' ''ETO-1'' BUY 100000 (11001 / 10000) jan5 1 jan5]"
proof -
  have h: "get_highest_ask ((example_working buy_limit_11000)\<lparr>day_number := 5\<rparr>) EURUSD
             = Inr (11002 / 10000)"
    using example_working_quotes(1) [of buy_limit_11000] by (simp add: cursor_defs)
  have proj: "side buy_limit_11000 = BUY" "symbol buy_limit_11000 = EURUSD"
      "price_of buy_limit_11000 = Inr (11000 / 10000)" "order_id buy_limit_11000 = ''O-1''"
      "quantity buy_limit_11000 = 100000"
    by (simp_all add: example_defs price_of_def)
  show ?thesis
    by (simp add: h iterate_def day_rollover_def dt_day_jan5 scan_order_def proj
          example_working_simps example_stop_condition scan_fill_def dict_del_def dict_get_def
          fill_order_frame)
qed

lemma expire_order_eq:
  "expire_order s order =
     s\<lparr>guid_count := Suc (guid_count s),
       events := events s @ [OrderExpired (symbol order) (order_id order) (expire_time order)
                               (guid_count s)
                               (clock_time s)]\<rparr>"
  by (simp add: expire_order_def generate_def on_event_def time_now_def)

lemma scan_fill_condition_cong:
  assumes "data_bars_ask s' = data_bars_ask s" "data_bars_bid s' = data_bars_bid s"
      "iteration s' = iteration s"
  shows "scan_fill_condition enum_value s' order = scan_fill_condition enum_value s order"
proof -
  have "get_highest_ask s' sy = get_highest_ask s sy"
       "get_lowest_bid s' sy = get_lowest_bid s sy" for sy
    using assms by (simp_all add: get_highest_ask_def get_lowest_bid_def)
  then show ?thesis
    by (simp add: scan_fill_condition_def split: OrderSide.splits)
qed

lemma scan_frame_refl: "scan_frame s s"
  by (simp add: scan_frame_def)

lemma scan_frame_trans: "scan_frame s s' \<Longrightarrow> scan_frame s' s'' \<Longrightarrow> scan_frame s s''"
  by (auto simp: scan_frame_def)

lemma set_delete_keys: "fst ` set (AList.delete k al) = fst ` set al - {k}"
  by (induction al) auto

lemma scan_fill_step:
  assumes "scan_fill s order p adjust = Inr s'"
  shows "order_id order \<in> fst ` set (working_orders s) \<and>
         working_orders s' = AList.delete (order_id order) (working_orders s) \<and>
         scan_frame s s' \<and>
         (\<exists>e. events s' = events s @ [e] \<and> is_OrderFilled e \<and>
              event_order_id e = Some (order_id order) \<and> event_timestamp e = clock_time s)"
  using assms
  by (auto simp: scan_fill_def ebind_eq_Inr dict_del_def fill_order_frame scan_frame_def
        split: if_splits)

lemma scan_expiry_step:
  assumes "scan_expiry time s order = Inr s'"
  shows "s' = s \<or>
         (order_id order \<in> fst ` set (working_orders s) \<and>
          working_orders s' = AList.delete (order_id order) (working_orders s) \<and>
          scan_frame s s' \<and>
          (\<exists>e. events s' = events s @ [e] \<and> is_OrderExpired e \<and>
               event_order_id e = Some (order_id order) \<and> event_timestamp e = clock_time s \<and>
               expired_time e = expire_time order \<and>
               (case expire_time order of None \<Rightarrow> False | Some et \<Rightarrow> et \<le> time)))"
  using assms
  by (auto simp: scan_expiry_def ebind_eq_Inr dict_del_def expire_order_eq scan_frame_def
        split: if_splits option.splits)

lemma expired_not_filled: "is_OrderExpired e \<Longrightarrow> \<not> is_OrderFilled e"
  by (cases e) simp_all

lemma scan_order_step:
  assumes "scan_order enum_value time s order = Inr s'"
  shows "(s' = s \<and> scan_fill_condition enum_value s order = Inr False) \<or>
         (order_id order \<in> fst ` set (working_orders s) \<and>
          working_orders s' = AList.delete (order_id order) (working_orders s) \<and>
          scan_frame s s' \<and>
          (\<exists>e. events s' = events s @ [e] \<and> scan_event_of enum_value time s order e))"
proof -
  let ?fill = "\<lambda>p adjust. scan_fill s order p adjust = Inr s'"
  let ?exp = "scan_expiry time s order = Inr s'"
  have "(scan_fill_condition enum_value s order = Inr True \<and> (\<exists>p adjust. ?fill p adjust))
        \<or> (scan_fill_condition enum_value s order = Inr False \<and> ?exp)"
    using assms
    unfolding scan_order_def scan_fill_condition_def
    by (auto simp: ebind_eq_Inr split: OrderSide.splits if_splits)
  then show ?thesis
  proof (elim disjE conjE exE)
    fix p adjust
    assume c: "scan_fill_condition enum_value s order = Inr True" and f: "?fill p adjust"
    from scan_fill_step [OF f] c show ?thesis
      by (auto simp: scan_event_of_def)
  next
    assume c: "scan_fill_condition enum_value s order = Inr False" and e: ?exp
    from scan_expiry_step [OF e] c show ?thesis
      by (auto simp: scan_event_of_def dest: expired_not_filled)
  qed
qed


lemma scan_event_of_cong:
  assumes "scan_frame s s'"
  shows "scan_event_of enum_value time s' order e = scan_event_of enum_value time s order e"
proof -
  have "scan_fill_condition enum_value s' order = scan_fill_condition enum_value s order"
    using assms by (intro scan_fill_condition_cong) (simp_all add: scan_frame_def)
  moreover have "clock_time s' = clock_time s"
    using assms by (simp add: scan_frame_def)
  ultimately show ?thesis
    by (simp add: scan_event_of_def)
qed

lemma scan_orders_events:
  assumes "scan_orders enum_value time items s = Inr s'"
  shows "scan_frame s s' \<and>
         fst ` set (working_orders s') \<subseteq> fst ` set (working_orders s) \<and>
         (\<exists>new. events s' = events s @ new \<and> distinct (map event_order_id new) \<and>
            (\<forall>e \<in> set new.
               (\<exists>order \<in> snd ` set items. scan_event_of enum_value time s order e) \<and>
               (\<exists>oid. event_order_id e = Some oid \<and> oid \<in> fst ` set (working_orders s) \<and>
                      oid \<notin> fst ` set (working_orders s'))))"
  using assms
proof (induction items arbitrary: s)
  case Nil
  then show ?case
    by (simp add: scan_frame_refl)
next
  case (Cons item items)
  from Cons.prems obtain s1 where
    first: "scan_order enum_value time s (snd item) = Inr s1" and
    rest: "scan_orders enum_value time items s1 = Inr s'"
    by (auto simp: ebind_eq_Inr)
  from Cons.IH [OF rest] obtain new where
    frame': "scan_frame s1 s'" and
    keys': "fst ` set (working_orders s') \<subseteq> fst ` set (working_orders s1)" and
    ev': "events s' = events s1 @ new" and
    dist': "distinct (map event_order_id new)" and
    each': "\<forall>e \<in> set new.
               (\<exists>order \<in> snd ` set items. scan_event_of enum_value time s1 order e) \<and>
               (\<exists>oid. event_order_id e = Some oid \<and> oid \<in> fst ` set (working_orders s1) \<and>
                      oid \<notin> fst ` set (working_orders s'))"
    by blast
  from scan_order_step [OF first] show ?case
  proof (elim disjE conjE exE)
    assume same: "s1 = s"
    have "\<forall>e \<in> set new.
               (\<exists>order \<in> snd ` set (item # items). scan_event_of enum_value time s order e) \<and>
               (\<exists>oid. event_order_id e = Some oid \<and> oid \<in> fst ` set (working_orders s) \<and>
                      oid \<notin> fst ` set (working_orders s'))"
      using each' same by auto
    with frame' keys' ev' dist' same show ?thesis
      by blast
  next
    fix e
    let ?oid = "order_id (snd item)"
    assume present: "?oid \<in> fst ` set (working_orders s)"
      and del: "working_orders s1 = AList.delete ?oid (working_orders s)"
      and frame: "scan_frame s s1"
      and ev: "events s1 = events s @ [e]"
      and this_event: "scan_event_of enum_value time s (snd item) e"
    have keys1: "fst ` set (working_orders s1) = fst ` set (working_orders s) - {?oid}"
      by (simp add: del set_delete_keys)
    have id_e: "event_order_id e = Some ?oid"
      using this_event by (simp add: scan_event_of_def)
    have gone: "?oid \<notin> fst ` set (working_orders s')"
      using keys' keys1 by blast
    have later: "\<forall>e' \<in> set new.
               (\<exists>order \<in> snd ` set (item # items). scan_event_of enum_value time s order e') \<and>
               (\<exists>oid. event_order_id e' = Some oid \<and> oid \<in> fst ` set (working_orders s) \<and>
                      oid \<notin> fst ` set (working_orders s') \<and> oid \<noteq> ?oid)"
    proof
      fix e'
      assume "e' \<in> set new"
      with each' obtain order oid where
        o: "order \<in> snd ` set items" "scan_event_of enum_value time s1 order e'" and
        i: "event_order_id e' = Some oid" "oid \<in> fst ` set (working_orders s1)"
           "oid \<notin> fst ` set (working_orders s')"
        by blast
      from o(2) have "scan_event_of enum_value time s order e'"
        by (simp add: scan_event_of_cong [OF frame])
      with o(1) i keys1 show
        "(\<exists>order \<in> snd ` set (item # items). scan_event_of enum_value time s order e') \<and>
         (\<exists>oid. event_order_id e' = Some oid \<and> oid \<in> fst ` set (working_orders s) \<and>
                oid \<notin> fst ` set (working_orders s') \<and> oid \<noteq> ?oid)"
        by auto
    qed
    have "event_order_id e \<notin> set (map event_order_id new)"
      using later id_e by auto
    with dist' have dist: "distinct (map event_order_id (e # new))"
      by simp
    have all: "\<forall>e' \<in> set (e # new).
               (\<exists>order \<in> snd ` set (item # items). scan_event_of enum_value time s order e') \<and>
               (\<exists>oid. event_order_id e' = Some oid \<and> oid \<in> fst ` set (working_orders s) \<and>
                      oid \<notin> fst ` set (working_orders s'))"
    proof
      fix e'
      assume "e' \<in> set (e # new)"
      then consider "e' = e" | "e' \<in> set new"
        by auto
      then show "(\<exists>order \<in> snd ` set (item # items). scan_event_of enum_value time s order e') \<and>
               (\<exists>oid. event_order_id e' = Some oid \<and> oid \<in> fst ` set (working_orders s) \<and>
                      oid \<notin> fst ` set (working_orders s'))"
      proof cases
        case 1
        with this_event id_e present gone show ?thesis
          by auto
      next
        case 2
        with later show ?thesis
          by blast
      qed
    qed
    have "events s' = events s @ (e # new)"
      using ev ev' by simp
    moreover have "scan_frame s s'"
      using frame frame' by (rule scan_frame_trans)
    moreover have "fst ` set (working_orders s') \<subseteq> fst ` set (working_orders s)"
      using keys' keys1 by blast
    ultimately show ?thesis
      using dist all by blast
  qed
qed

lemma collateral_inquiry_eq:
  "collateral_inquiry s =
     s\<lparr>guid_count := Suc (guid_count s),
       events := events s @
         [AccountEvent
            (account_snapshot s (margin_used_liquidation (account s))
               (margin_used_maintenance (account s)) (margin_ratio (account s))
               (margin_call_status (account s)))
            (guid_count s) (clock_time s)]\<rparr>"
  by (simp add: collateral_inquiry_def generate_def on_event_def time_now_def)

lemma day_rollover_frame:
  "working_orders (day_rollover s time) = working_orders s"
  "clock_time (day_rollover s time) = clock_time s"
  "day_number (day_rollover s time) = dt_day time"
  "account (day_rollover s time) = account s"
  by (simp_all add: day_rollover_def collateral_inquiry_eq)

lemma day_rollover_scan_event:
  "scan_event_of enum_value time (day_rollover s t) order e = scan_event_of enum_value time s order e"
proof -
  have "scan_fill_condition enum_value (day_rollover s t) order = scan_fill_condition enum_value s order"
    by (intro scan_fill_condition_cong) (simp_all add: day_rollover_def collateral_inquiry_eq)
  then show ?thesis
    by (simp add: scan_event_of_def day_rollover_frame)
qed

lemma day_rollover_events:
  "events (day_rollover s time) =
     events s @ (if day_number s \<noteq> dt_day time
                 then [AccountEvent
                         (account_snapshot
                            (s\<lparr>account_cash_start_day := cash_balance (account s),
                               account_cash_activity_day := 0\<rparr>)
                            (margin_used_liquidation (account s))
                            (margin_used_maintenance (account s)) (margin_ratio (account s))
                            (margin_call_status (account s)))
                         (guid_count s) (clock_time s)]
                 else [])"
  by (simp add: day_rollover_def collateral_inquiry_eq account_snapshot_def)

lemma scan_event_kind:
  "scan_event_of enum_value time s order e \<Longrightarrow> \<not> is_AccountEvent e"
  by (cases e) (simp_all add: scan_event_of_def)

lemma iterate_events:
  assumes "iterate enum_value s time = Inr s'"
  shows "\<exists>new. events s' = events (day_rollover s time) @ new \<and>
           distinct (map event_order_id new) \<and>
           (\<forall>e \<in> set new.
              (\<exists>order \<in> snd ` set (working_orders s). scan_event_of enum_value time s order e) \<and>
              (\<exists>oid. event_order_id e = Some oid \<and> oid \<in> fst ` set (working_orders s) \<and>
                     oid \<notin> fst ` set (working_orders s')))"
    and "day_number s' = dt_day time"
    and "account_cash_start_day s' = account_cash_start_day (day_rollover s time)"
    and "account_cash_activity_day s' = account_cash_activity_day (day_rollover s time)"
    and "account s' = account s"
proof -
  let ?s1 = "day_rollover s time"
  from assms obtain s2 where
    scan: "scan_orders enum_value time (working_orders ?s1) ?s1 = Inr s2" and
    s': "s' = s2\<lparr>iteration := iteration s2 + 1\<rparr>"
    by (auto simp: iterate_def Let_def ebind_eq_Inr)
  from scan_orders_events [OF scan] obtain new where
    frame: "scan_frame ?s1 s2" and
    new: "events s2 = events ?s1 @ new" "distinct (map event_order_id new)"
      "\<forall>e \<in> set new.
         (\<exists>order \<in> snd ` set (working_orders ?s1). scan_event_of enum_value time ?s1 order e) \<and>
         (\<exists>oid. event_order_id e = Some oid \<and> oid \<in> fst ` set (working_orders ?s1) \<and>
                oid \<notin> fst ` set (working_orders s2))"
    by blast
  from new s' show "\<exists>new. events s' = events (day_rollover s time) @ new \<and>
           distinct (map event_order_id new) \<and>
           (\<forall>e \<in> set new.
              (\<exists>order \<in> snd ` set (working_orders s). scan_event_of enum_value time s order e) \<and>
              (\<exists>oid. event_order_id e = Some oid \<and> oid \<in> fst ` set (working_orders s) \<and>
                     oid \<notin> fst ` set (working_orders s')))"
    by (intro exI [of _ new]) (simp add: day_rollover_frame day_rollover_scan_event)
  from frame s' show "day_number s' = dt_day time"
    by (simp add: scan_frame_def day_rollover_frame)
  from frame s' show "account_cash_start_day s' = account_cash_start_day (day_rollover s time)"
    by (simp add: scan_frame_def)
  from frame s' show "account_cash_activity_day s' = account_cash_activity_day (day_rollover s time)"
    by (simp add: scan_frame_def)
  from frame s' show "account s' = account s"
    by (simp add: scan_frame_def day_rollover_frame)
qed

text \<open>
  C6. Within one call of \<open>iterate\<close> no order is both filled and expired: among the events
  of the call an \<open>OrderFilled\<close> and an \<open>OrderExpired\<close> never name the same order. A filled
  order is one whose fill test holds, an expired order one whose fill test fails, and both
  have left the working orders when the call returns.
\<close>

theorem iterate_fill_excludes_expiry:
  assumes "iterate enum_value s time = Inr s'"
  shows "\<exists>new. events s' = events s @ new \<and>
           (\<forall>e1 \<in> set new. \<forall>e2 \<in> set new. is_OrderFilled e1 \<and> is_OrderExpired e2 \<longrightarrow>
              event_order_id e1 \<noteq> event_order_id e2) \<and>
           (\<forall>e \<in> set new. is_OrderFilled e \<longrightarrow>
              (\<exists>order \<in> snd ` set (working_orders s).
                 event_order_id e = Some (order_id order) \<and>
                 scan_fill_condition enum_value s order = Inr True \<and>
                 order_id order \<notin> fst ` set (working_orders s'))) \<and>
           (\<forall>e \<in> set new. is_OrderExpired e \<longrightarrow>
              (\<exists>order \<in> snd ` set (working_orders s).
                 event_order_id e = Some (order_id order) \<and>
                 scan_fill_condition enum_value s order = Inr False \<and>
                 order_id order \<notin> fst ` set (working_orders s')))"
proof -
  from iterate_events(1) [OF assms] obtain new where
    ev: "events s' = events (day_rollover s time) @ new" and
    dist: "distinct (map event_order_id new)" and
    each: "\<forall>e \<in> set new.
              (\<exists>order \<in> snd ` set (working_orders s). scan_event_of enum_value time s order e) \<and>
              (\<exists>oid. event_order_id e = Some oid \<and> oid \<in> fst ` set (working_orders s) \<and>
                     oid \<notin> fst ` set (working_orders s'))"
    by blast
  obtain pre where pre: "events (day_rollover s time) = events s @ pre"
      "\<forall>e \<in> set pre. is_AccountEvent e"
    by (simp add: day_rollover_events)
  have kinds: "\<not> is_OrderFilled e \<and> \<not> is_OrderExpired e" if "e \<in> set pre" for e
    using pre(2) that by (cases e) auto
  have inj: "event_order_id e1 \<noteq> event_order_id e2"
    if "e1 \<in> set new" "e2 \<in> set new" "e1 \<noteq> e2" for e1 e2
  proof -
    from dist have "inj_on event_order_id (set new)"
      by (simp add: distinct_map)
    with that show ?thesis
      by (auto dest: inj_onD)
  qed
  have differ: "e1 \<noteq> e2" if "is_OrderFilled e1" "is_OrderExpired e2" for e1 e2
    using that expired_not_filled by blast
  have origin: "\<exists>order \<in> snd ` set (working_orders s).
                 scan_event_of enum_value time s order e \<and>
                 order_id order \<notin> fst ` set (working_orders s')"
    if "e \<in> set new" for e
  proof -
    from each that obtain order oid where
      o: "order \<in> snd ` set (working_orders s)" "scan_event_of enum_value time s order e" and
      i: "event_order_id e = Some oid" "oid \<notin> fst ` set (working_orders s')"
      by blast
    from o(2) i have "order_id order \<notin> fst ` set (working_orders s')"
      by (simp add: scan_event_of_def)
    with o show ?thesis
      by blast
  qed
  have filled: "\<exists>order \<in> snd ` set (working_orders s).
                 event_order_id e = Some (order_id order) \<and>
                 scan_fill_condition enum_value s order = Inr True \<and>
                 order_id order \<notin> fst ` set (working_orders s')"
    if "e \<in> set new" "is_OrderFilled e" for e
  proof -
    from origin [OF that(1)] obtain order where
      o: "order \<in> snd ` set (working_orders s)" "scan_event_of enum_value time s order e"
         "order_id order \<notin> fst ` set (working_orders s')"
      by blast
    from o(2) that(2) have "event_order_id e = Some (order_id order)"
        "scan_fill_condition enum_value s order = Inr True"
      by (simp_all add: scan_event_of_def)
    with o(1,3) show ?thesis
      by blast
  qed
  have expired: "\<exists>order \<in> snd ` set (working_orders s).
                 event_order_id e = Some (order_id order) \<and>
                 scan_fill_condition enum_value s order = Inr False \<and>
                 order_id order \<notin> fst ` set (working_orders s')"
    if "e \<in> set new" "is_OrderExpired e" for e
  proof -
    from origin [OF that(1)] obtain order where
      o: "order \<in> snd ` set (working_orders s)" "scan_event_of enum_value time s order e"
         "order_id order \<notin> fst ` set (working_orders s')"
      by blast
    from o(2) expired_not_filled [OF that(2)] have "event_order_id e = Some (order_id order)"
        "scan_fill_condition enum_value s order = Inr False"
      by (simp_all add: scan_event_of_def)
    with o(1,3) show ?thesis
      by blast
  qed
  have in_new: "e \<in> set new" if "e \<in> set (pre @ new)" "is_OrderFilled e \<or> is_OrderExpired e" for e
    using that kinds by auto
  have c0: "events s' = events s @ (pre @ new)"
    using ev pre(1) by simp
  have c1: "\<forall>e1 \<in> set (pre @ new). \<forall>e2 \<in> set (pre @ new).
       is_OrderFilled e1 \<and> is_OrderExpired e2 \<longrightarrow> event_order_id e1 \<noteq> event_order_id e2"
  proof (intro ballI impI)
    fix e1 e2
    assume m: "e1 \<in> set (pre @ new)" "e2 \<in> set (pre @ new)"
      and k: "is_OrderFilled e1 \<and> is_OrderExpired e2"
    from m k have "e1 \<in> set new" "e2 \<in> set new"
      by (simp_all add: in_new)
    moreover from k have "e1 \<noteq> e2"
      by (simp add: differ)
    ultimately show "event_order_id e1 \<noteq> event_order_id e2"
      by (rule inj)
  qed
  have c2: "\<forall>e \<in> set (pre @ new). is_OrderFilled e \<longrightarrow>
              (\<exists>order \<in> snd ` set (working_orders s).
                 event_order_id e = Some (order_id order) \<and>
                 scan_fill_condition enum_value s order = Inr True \<and>
                 order_id order \<notin> fst ` set (working_orders s'))"
    using in_new filled by blast
  have c3: "\<forall>e \<in> set (pre @ new). is_OrderExpired e \<longrightarrow>
              (\<exists>order \<in> snd ` set (working_orders s).
                 event_order_id e = Some (order_id order) \<and>
                 scan_fill_condition enum_value s order = Inr False \<and>
                 order_id order \<notin> fst ` set (working_orders s'))"
    using in_new expired by blast
  show ?thesis
    by (rule exI [of _ "pre @ new"]) (intro conjI c0 c1 c2 c3)
qed

lemma example_gtd_proj:
  "side buy_stop_11010_gtd = BUY" "symbol buy_stop_11010_gtd = EURUSD"
  "price_of buy_stop_11010_gtd = Inr (11010 / 10000)" "order_id buy_stop_11010_gtd = ''O-1''"
  "quantity buy_stop_11010_gtd = 100000" "expire_time buy_stop_11010_gtd = Some (jan5 + 30000000)"
  "side buy_stop_11001_gtd = BUY" "symbol buy_stop_11001_gtd = EURUSD"
  "price_of buy_stop_11001_gtd = Inr (11001 / 10000)" "order_id buy_stop_11001_gtd = ''O-1''"
  "quantity buy_stop_11001_gtd = 100000" "expire_time buy_stop_11001_gtd = Some (jan5 + 30000000)"
  by (simp_all add: example_defs price_of_def)

lemma dt_day_jan5_minute: "dt_day (jan5 + minute) = 5"
  by (simp add: jan5_def minute_def calendar_defs)

lemma cursor_day_number:
  "get_highest_ask (s\<lparr>day_number := d\<rparr>) sy = get_highest_ask s sy"
  "get_lowest_bid (s\<lparr>day_number := d\<rparr>) sy = get_lowest_bid s sy"
  by (simp_all add: get_highest_ask_def get_lowest_bid_def)

lemma example_times: "30000000 \<le> minute" "jan5 + 30000000 < jan5 + minute"
  by (simp_all add: minute_def)

lemma iterate_expires_example:
  "iterate example_enum_value ((example_working buy_stop_11010_gtd)\<lparr>day_number := 5\<rparr>) (jan5 + minute) =
     Inr ((example_working buy_stop_11010_gtd)
            \<lparr>day_number := 5, working_orders := [], guid_count := 2,
             events := [OrderExpired EURUSD ''O-1'' (Some (jan5 + 30000000)) 1 jan5],
             iteration := 1\<rparr>)"
  by (simp add: iterate_def Let_def day_rollover_def dt_day_jan5_minute scan_order_def
        example_gtd_proj example_working_simps example_working_quotes example_stop_condition
        scan_expiry_def dict_del_def expire_order_eq example_times cursor_day_number)

lemma iterate_fills_example:
  "iterate example_enum_value ((example_working buy_stop_11001_gtd)\<lparr>day_number := 5\<rparr>) (jan5 + minute) =
     Inr ((fill_order ((example_working buy_stop_11001_gtd)\<lparr>day_number := 5, working_orders := []\<rparr>)
              buy_stop_11001_gtd (11002 / 10000))
            \<lparr>iteration := 1\<rparr>)"
  by (simp add: iterate_def Let_def day_rollover_def dt_day_jan5_minute scan_order_def
        example_gtd_proj example_working_simps example_working_quotes example_stop_condition
        scan_fill_def dict_del_def dict_get_def fill_order_frame cursor_day_number)


theorem iterate_fill_excludes_expiry_witness:
  "iterate example_enum_value ((example_working buy_stop_11001_gtd)\<lparr>day_number := 5\<rparr>) (jan5 + minute) =
     Inr ((fill_order ((example_working buy_stop_11001_gtd)\<lparr>day_number := 5, working_orders := []\<rparr>)
              buy_stop_11001_gtd (11002 / 10000))
            \<lparr>iteration := 1\<rparr>)
   \<and> expire_time buy_stop_11001_gtd = Some (jan5 + 30000000)
   \<and> jan5 + 30000000 < jan5 + minute
   \<and> scan_fill_condition example_enum_value
        ((example_working buy_stop_11001_gtd)\<lparr>day_number := 5\<rparr>) buy_stop_11001_gtd = Inr True
   \<and> events ((fill_order ((example_working buy_stop_11001_gtd)\<lparr>day_number := 5, working_orders := []\<rparr>)
                 buy_stop_11001_gtd (11002 / 10000))\<lparr>iteration := 1\<rparr>)
        = [OrderFilled EURUSD ''O-1'' ''EO-1'' ''ETO-1'' BUY 100000 (11002 / 10000) jan5 1 jan5]
   \<and> (\<exists>new. events ((fill_order ((example_working buy_stop_11001_gtd)\<lparr>day_number := 5, working_orders := []\<rparr>)
                 buy_stop_11001_gtd (11002 / 10000))\<lparr>iteration := 1\<rparr>)
               = events ((example_working buy_stop_11001_gtd)\<lparr>day_number := 5\<rparr>) @ new
            \<and> (\<forall>e1 \<in> set new. \<forall>e2 \<in> set new. is_OrderFilled e1 \<and> is_OrderExpired e2 \<longrightarrow>
                  event_order_id e1 \<noteq> event_order_id e2))"
proof -
  let ?s = "(example_working buy_stop_11001_gtd)\<lparr>day_number := 5\<rparr>"
  let ?s' = "(fill_order ((example_working buy_stop_11001_gtd)\<lparr>day_number := 5, working_orders := []\<rparr>)
              buy_stop_11001_gtd (11002 / 10000))\<lparr>iteration := 1\<rparr>"
  have run: "iterate example_enum_value ?s (jan5 + minute) = Inr ?s'"
    by (rule iterate_fills_example)
  have cond: "scan_fill_condition example_enum_value ?s buy_stop_11001_gtd = Inr True"
    by (simp add: scan_fill_condition_def example_gtd_proj example_stop_condition
          cursor_day_number example_working_quotes)
  have evs: "events ?s' = [OrderFilled EURUSD ''O-1'' ''EO-1'' ''ETO-1'' BUY 100000
                            (11002 / 10000) jan5 1 jan5]"
    by (simp add: fill_order_frame example_working_simps example_gtd_proj)
  from iterate_fill_excludes_expiry [OF run] obtain new where
    "events ?s' = events ?s @ new"
    "\<forall>e1 \<in> set new. \<forall>e2 \<in> set new. is_OrderFilled e1 \<and> is_OrderExpired e2 \<longrightarrow>
        event_order_id e1 \<noteq> event_order_id e2"
    by (elim exE conjE)
  then have ex: "\<exists>new. events ?s' = events ?s @ new
            \<and> (\<forall>e1 \<in> set new. \<forall>e2 \<in> set new. is_OrderFilled e1 \<and> is_OrderExpired e2 \<longrightarrow>
                  event_order_id e1 \<noteq> event_order_id e2)"
    by (intro exI [of _ new] conjI)
  show ?thesis
    by (intro conjI run cond evs example_gtd_proj(12) example_times(2) ex)
qed

text \<open>
  C10. Every \<open>OrderExpired\<close> event of a call \<open>iterate(time)\<close> belongs to an order of the
  working orders and has that order's own \<open>expire_time\<close> as its expired time, which is
  at most \<open>time\<close>; the event's timestamp is the clock's time.
\<close>

theorem expired_event_carries_expire_time:
  assumes "iterate enum_value s time = Inr s'"
  shows "\<exists>new. events s' = events s @ new \<and>
           (\<forall>sy oid expired g ts. OrderExpired sy oid expired g ts \<in> set new \<longrightarrow>
              (\<exists>order \<in> snd ` set (working_orders s). \<exists>et.
                 order_id order = oid \<and> expired = Some et \<and> expire_time order = Some et \<and>
                 et \<le> time \<and> ts = clock_time s))"
proof -
  from iterate_events(1) [OF assms] obtain new where
    ev: "events s' = events (day_rollover s time) @ new" and
    each: "\<forall>e \<in> set new.
              (\<exists>order \<in> snd ` set (working_orders s). scan_event_of enum_value time s order e) \<and>
              (\<exists>oid. event_order_id e = Some oid \<and> oid \<in> fst ` set (working_orders s) \<and>
                     oid \<notin> fst ` set (working_orders s'))"
    by blast
  obtain pre where pre: "events (day_rollover s time) = events s @ pre"
      "\<forall>e \<in> set pre. is_AccountEvent e"
    by (simp add: day_rollover_events)
  have c0: "events s' = events s @ (pre @ new)"
    using ev pre(1) by simp
  have c1: "\<forall>sy oid expired g ts. OrderExpired sy oid expired g ts \<in> set (pre @ new) \<longrightarrow>
              (\<exists>order \<in> snd ` set (working_orders s). \<exists>et.
                 order_id order = oid \<and> expired = Some et \<and> expire_time order = Some et \<and>
                 et \<le> time \<and> ts = clock_time s)"
  proof (intro allI impI)
    fix sy oid expired g ts
    assume m: "OrderExpired sy oid expired g ts \<in> set (pre @ new)"
    have "OrderExpired sy oid expired g ts \<notin> set pre"
      using pre(2) by auto
    with m have "OrderExpired sy oid expired g ts \<in> set new"
      by simp
    with each obtain order where
      o: "order \<in> snd ` set (working_orders s)"
         "scan_event_of enum_value time s order (OrderExpired sy oid expired g ts)"
      by blast
    from o(2) have "\<exists>et. order_id order = oid \<and> expired = Some et \<and>
                    expire_time order = Some et \<and> et \<le> time \<and> ts = clock_time s"
      by (auto simp: scan_event_of_def split: option.splits)
    with o(1) show "\<exists>order \<in> snd ` set (working_orders s). \<exists>et.
                 order_id order = oid \<and> expired = Some et \<and> expire_time order = Some et \<and>
                 et \<le> time \<and> ts = clock_time s"
      by blast
  qed
  show ?thesis
    by (rule exI [of _ "pre @ new"]) (intro conjI c0 c1)
qed

theorem expired_event_carries_expire_time_witness:
  "iterate example_enum_value ((example_working buy_stop_11010_gtd)\<lparr>day_number := 5\<rparr>) (jan5 + minute) =
     Inr ((example_working buy_stop_11010_gtd)
            \<lparr>day_number := 5, working_orders := [], guid_count := 2,
             events := [OrderExpired EURUSD ''O-1'' (Some (jan5 + 30000000)) 1 jan5],
             iteration := 1\<rparr>)
   \<and> jan5 + 30000000 < jan5 + minute
   \<and> jan5 + 30000000 \<noteq> clock_time ((example_working buy_stop_11010_gtd)\<lparr>day_number := 5\<rparr>)
   \<and> (\<exists>order \<in> snd ` set (working_orders ((example_working buy_stop_11010_gtd)\<lparr>day_number := 5\<rparr>)).
         order_id order = ''O-1'' \<and> expire_time order = Some (jan5 + 30000000))"
proof -
  let ?s = "(example_working buy_stop_11010_gtd)\<lparr>day_number := 5\<rparr>"
  let ?s' = "(example_working buy_stop_11010_gtd)
            \<lparr>day_number := 5, working_orders := [], guid_count := 2,
             events := [OrderExpired EURUSD ''O-1'' (Some (jan5 + 30000000)) 1 jan5],
             iteration := 1\<rparr>"
  have run: "iterate example_enum_value ?s (jan5 + minute) = Inr ?s'"
    by (rule iterate_expires_example)
  from expired_event_carries_expire_time [OF run] obtain new where
    new: "events ?s' = events ?s @ new"
      "\<forall>sy oid expired g ts. OrderExpired sy oid expired g ts \<in> set new \<longrightarrow>
              (\<exists>order \<in> snd ` set (working_orders ?s). \<exists>et.
                 order_id order = oid \<and> expired = Some et \<and> expire_time order = Some et \<and>
                 et \<le> jan5 + minute \<and> ts = clock_time ?s)"
    by (elim exE conjE)
  from new(1) have "new = [OrderExpired EURUSD ''O-1'' (Some (jan5 + 30000000)) 1 jan5]"
    by (simp add: example_working_simps)
  then have "OrderExpired EURUSD ''O-1'' (Some (jan5 + 30000000)) 1 jan5 \<in> set new"
    by simp
  with new(2) obtain order et where
    "order \<in> snd ` set (working_orders ?s)"
    "order_id order = ''O-1'' \<and> Some (jan5 + 30000000) = Some et \<and> expire_time order = Some et \<and>
     et \<le> jan5 + minute \<and> jan5 = clock_time ?s"
    by meson
  then have origin: "\<exists>order \<in> snd ` set (working_orders ?s).
         order_id order = ''O-1'' \<and> expire_time order = Some (jan5 + 30000000)"
    by (intro bexI [of _ order]) simp_all
  have clock: "jan5 + 30000000 \<noteq> clock_time ?s"
    by (simp add: example_working_simps)
  show ?thesis
    by (intro conjI run example_times(2) clock origin)
qed

subsection \<open>The day rollover\<close>

lemma dt_day_toordinal: "toordinal t = toordinal u \<Longrightarrow> dt_day t = dt_day u"
  by (simp add: dt_day_def)

lemma iterate_account_events:
  assumes "iterate enum_value s time = Inr s'"
  shows "filter is_AccountEvent (events s') =
           filter is_AccountEvent (events s) @
             (if day_number s \<noteq> dt_day time
              then [AccountEvent
                      (account_snapshot
                         (s\<lparr>account_cash_start_day := cash_balance (account s),
                            account_cash_activity_day := 0\<rparr>)
                         (margin_used_liquidation (account s))
                         (margin_used_maintenance (account s)) (margin_ratio (account s))
                         (margin_call_status (account s)))
                      (guid_count s) (clock_time s)]
              else [])"
proof -
  from iterate_events(1) [OF assms] obtain new where
    ev: "events s' = events (day_rollover s time) @ new" and
    each: "\<forall>e \<in> set new.
              (\<exists>order \<in> snd ` set (working_orders s). scan_event_of enum_value time s order e) \<and>
              (\<exists>oid. event_order_id e = Some oid \<and> oid \<in> fst ` set (working_orders s) \<and>
                     oid \<notin> fst ` set (working_orders s'))"
    by (elim exE conjE)
  have "\<not> is_AccountEvent e" if "e \<in> set new" for e
    using each that scan_event_kind by blast
  then have "filter is_AccountEvent new = []"
    by (simp add: filter_empty_conv)
  with ev show ?thesis
    by (simp add: day_rollover_events)
qed

lemma iterate_cash_fields:
  assumes "iterate enum_value s time = Inr s'"
  shows "account_cash_start_day s' =
           (if day_number s \<noteq> dt_day time then cash_balance (account s)
            else account_cash_start_day s)"
    and "account_cash_activity_day s' =
           (if day_number s \<noteq> dt_day time then 0 else account_cash_activity_day s)"
  using iterate_events(3,4) [OF assms]
  by (simp_all add: day_rollover_def collateral_inquiry_eq)

lemma run_iterate_account_events:
  assumes "run_iterate enum_value s stamps = Inr s'"
  shows "length (filter is_AccountEvent (events s')) =
           length (filter is_AccountEvent (events s)) + day_changes (day_number s) stamps"
  using assms
proof (induction stamps arbitrary: s)
  case Nil
  then show ?case by simp
next
  case (Cons time stamps)
  from Cons.prems obtain s1 where
    first: "iterate enum_value s time = Inr s1" and
    rest: "run_iterate enum_value s1 stamps = Inr s'"
    by (auto simp: ebind_eq_Inr)
  from Cons.IH [OF rest] iterate_account_events [OF first] iterate_events(2) [OF first]
  show ?case
    by simp
qed

lemma day_changes_same_month_day:
  assumes "sorted (map toordinal (time # stamps))"
      and "successively (\<lambda>t u. toordinal t \<noteq> toordinal u \<longrightarrow> dt_day t \<noteq> dt_day u) (time # stamps)"
  shows "Suc (day_changes (dt_day time) stamps) = card (toordinal ` set (time # stamps))"
  using assms
proof (induction stamps arbitrary: time)
  case Nil
  then show ?case by simp
next
  case (Cons u us)
  from Cons.prems have IH: "Suc (day_changes (dt_day u) us) = card (toordinal ` set (u # us))"
    by (intro Cons.IH) simp_all
  show ?case
  proof (cases "toordinal time = toordinal u")
    case True
    then have "dt_day time = dt_day u"
      by (rule dt_day_toordinal)
    moreover from True have "toordinal ` set (time # u # us) = toordinal ` set (u # us)"
      by auto
    ultimately show ?thesis
      using IH by simp
  next
    case False
    with Cons.prems(2) have change: "dt_day time \<noteq> dt_day u"
      by simp
    from Cons.prems(1) False have "\<forall>x \<in> set (u # us). toordinal time < toordinal x"
      by fastforce
    then have "toordinal time \<notin> toordinal ` set (u # us)"
      by auto
    then have "card (toordinal ` set (time # u # us)) = Suc (card (toordinal ` set (u # us)))"
      by simp
    with IH change show ?thesis
      by simp
  qed
qed

lemma day_changes_calendar_days:
  assumes "sorted (map toordinal stamps)"
      and "successively (\<lambda>t u. toordinal t \<noteq> toordinal u \<longrightarrow> dt_day t \<noteq> dt_day u) stamps"
      and "stamps \<noteq> [] \<longrightarrow> d \<noteq> dt_day (hd stamps)"
  shows "day_changes d stamps = card (toordinal ` set stamps)"
proof (cases stamps)
  case Nil
  then show ?thesis by simp
next
  case (Cons time later)
  with assms day_changes_same_month_day [of time later] show ?thesis
    by simp
qed


lemma iterate_no_orders:
  assumes "working_orders s = []"
  shows "iterate enum_value s time =
           Inr ((day_rollover s time)\<lparr>iteration := iteration (day_rollover s time) + 1\<rparr>)"
  using assms by (simp add: iterate_def Let_def day_rollover_frame)

lemma example_client_simps:
  "working_orders example_client = []"
  "day_number example_client = 0"
  "events example_client = []"
  "account_cash_start_day example_client = 1000000"
  "cash_balance (account example_client) = 1000000"
  by (simp_all add: example_client_def set_slippage_index_def)

lemma example_days:
  "dt_day jan6 = 6" "toordinal jan5 = 737064" "toordinal feb5 = 737095"
  "toordinal (jan5 + minute) = 737064" "toordinal jan6 = 737065"
  by (simp_all add: jan5_def feb5_def jan6_def minute_def calendar_defs)

lemma day_rollover_same: "day_number s = dt_day time \<Longrightarrow> day_rollover s time = s"
  by (simp add: day_rollover_def)

text \<open>
  C5. \<open>iterate\<close> assigns \<open>account_cash_start_day\<close> (to the account's cash balance, resetting
  \<open>account_cash_activity_day\<close> and sending an \<open>AccountEvent\<close>) exactly when the day of the
  month of its timestamp differs from the recorded \<open>day_number\<close>, which it then sets to
  that day of the month; otherwise both fields and the account events are unchanged. Over a
  run the number of assignments is therefore the number of changes of the day of the month
  between successive timestamps. When the timestamps are in order of their dates, two
  successive timestamps of different dates never share their day of the month, and the
  first timestamp's day of the month differs from the recorded one, that is one assignment
  for each calendar day.
\<close>

theorem cash_start_day_by_day_of_month:
  "(iterate enum_value s time = Inr s1 \<longrightarrow>
      day_number s1 = dt_day time \<and>
      account_cash_start_day s1 =
        (if day_number s \<noteq> dt_day time then cash_balance (account s)
         else account_cash_start_day s) \<and>
      account_cash_activity_day s1 =
        (if day_number s \<noteq> dt_day time then 0 else account_cash_activity_day s) \<and>
      filter is_AccountEvent (events s1) =
        filter is_AccountEvent (events s) @
          (if day_number s \<noteq> dt_day time
           then [AccountEvent
                   (account_snapshot
                      (s\<lparr>account_cash_start_day := cash_balance (account s),
                         account_cash_activity_day := 0\<rparr>)
                      (margin_used_liquidation (account s))
                      (margin_used_maintenance (account s)) (margin_ratio (account s))
                      (margin_call_status (account s)))
                   (guid_count s) (clock_time s)]
           else []))
   \<and> (run_iterate enum_value s stamps = Inr s' \<longrightarrow>
        length (filter is_AccountEvent (events s')) =
          length (filter is_AccountEvent (events s)) + day_changes (day_number s) stamps)
   \<and> (run_iterate enum_value s stamps = Inr s' \<and>
        sorted (map toordinal stamps) \<and>
        successively (\<lambda>t u. toordinal t \<noteq> toordinal u \<longrightarrow> dt_day t \<noteq> dt_day u) stamps \<and>
        (stamps \<noteq> [] \<longrightarrow> day_number s \<noteq> dt_day (hd stamps)) \<longrightarrow>
        length (filter is_AccountEvent (events s')) =
          length (filter is_AccountEvent (events s)) + card (toordinal ` set stamps))"
proof (intro conjI impI)
  assume step: "iterate enum_value s time = Inr s1"
  show "day_number s1 = dt_day time"
    by (rule iterate_events(2) [OF step])
  show "account_cash_start_day s1 =
        (if day_number s \<noteq> dt_day time then cash_balance (account s)
         else account_cash_start_day s)"
    by (rule iterate_cash_fields(1) [OF step])
  show "account_cash_activity_day s1 =
        (if day_number s \<noteq> dt_day time then 0 else account_cash_activity_day s)"
    by (rule iterate_cash_fields(2) [OF step])
  show "filter is_AccountEvent (events s1) =
        filter is_AccountEvent (events s) @
          (if day_number s \<noteq> dt_day time
           then [AccountEvent
                   (account_snapshot
                      (s\<lparr>account_cash_start_day := cash_balance (account s),
                         account_cash_activity_day := 0\<rparr>)
                      (margin_used_liquidation (account s))
                      (margin_used_maintenance (account s)) (margin_ratio (account s))
                      (margin_call_status (account s)))
                   (guid_count s) (clock_time s)]
           else [])"
    by (rule iterate_account_events [OF step])
next
  assume "run_iterate enum_value s stamps = Inr s'"
  then show "length (filter is_AccountEvent (events s')) =
          length (filter is_AccountEvent (events s)) + day_changes (day_number s) stamps"
    by (rule run_iterate_account_events)
next
  assume h: "run_iterate enum_value s stamps = Inr s' \<and>
        sorted (map toordinal stamps) \<and>
        successively (\<lambda>t u. toordinal t \<noteq> toordinal u \<longrightarrow> dt_day t \<noteq> dt_day u) stamps \<and>
        (stamps \<noteq> [] \<longrightarrow> day_number s \<noteq> dt_day (hd stamps))"
  then have "day_changes (day_number s) stamps = card (toordinal ` set stamps)"
    by (intro day_changes_calendar_days) simp_all
  with h run_iterate_account_events [of enum_value s stamps s']
  show "length (filter is_AccountEvent (events s')) =
          length (filter is_AccountEvent (events s)) + card (toordinal ` set stamps)"
    by simp
qed

theorem cash_start_day_by_day_of_month_witness:
  "iterate example_enum_value example_client jan5 =
     Inr ((day_rollover example_client jan5)\<lparr>iteration := 1\<rparr>)
   \<and> day_number example_client \<noteq> dt_day jan5
   \<and> day_number ((day_rollover example_client jan5)\<lparr>iteration := 1\<rparr>) = 5
   \<and> account_cash_start_day ((day_rollover example_client jan5)\<lparr>iteration := 1\<rparr>) = 1000000
   \<and> account_cash_activity_day ((day_rollover example_client jan5)\<lparr>iteration := 1\<rparr>) = 0
   \<and> run_iterate example_enum_value example_client [jan5, jan5 + minute, jan6] =
       Inr (projr (run_iterate example_enum_value example_client [jan5, jan5 + minute, jan6]))
   \<and> sorted (map toordinal [jan5, jan5 + minute, jan6])
   \<and> successively (\<lambda>t u. toordinal t \<noteq> toordinal u \<longrightarrow> dt_day t \<noteq> dt_day u)
        [jan5, jan5 + minute, jan6]
   \<and> card (toordinal ` set [jan5, jan5 + minute, jan6]) = 2
   \<and> length (filter is_AccountEvent
        (events (projr (run_iterate example_enum_value example_client [jan5, jan5 + minute, jan6]))))
       = 2"
proof -
  let ?run = "run_iterate example_enum_value example_client [jan5, jan5 + minute, jan6]"
  let ?s1 = "(day_rollover example_client jan5)\<lparr>iteration := 1\<rparr>"
  have first: "iterate example_enum_value example_client jan5 = Inr ?s1"
    using iterate_no_orders [of example_client example_enum_value jan5]
    by (simp add: example_client_simps day_rollover_def collateral_inquiry_eq example_client_def
          set_slippage_index_def)
  have day: "day_number example_client \<noteq> dt_day jan5"
    by (simp add: example_client_simps dt_day_jan5)
  have runs: "?run = Inr (projr ?run)"
    by (simp add: iterate_no_orders example_client_simps day_rollover_frame)
  have srt: "sorted (map toordinal [jan5, jan5 + minute, jan6])"
    by (simp add: example_days)
  have suc: "successively (\<lambda>t u. toordinal t \<noteq> toordinal u \<longrightarrow> dt_day t \<noteq> dt_day u)
               [jan5, jan5 + minute, jan6]"
    by (simp add: example_days dt_day_jan5 dt_day_jan5_minute)
  have crd: "card (toordinal ` set [jan5, jan5 + minute, jan6]) = 2"
    by (simp add: example_days)
  have hd: "[jan5, jan5 + minute, jan6] \<noteq> [] \<longrightarrow>
            day_number example_client \<noteq> dt_day (hd [jan5, jan5 + minute, jan6])"
    using day by simp
  from cash_start_day_by_day_of_month
         [of example_enum_value example_client jan5 ?s1 "[jan5, jan5 + minute, jan6]" "projr ?run"]
       first day runs srt suc hd crd
  have step: "day_number ?s1 = dt_day jan5"
       "account_cash_start_day ?s1 = cash_balance (account example_client)"
       "account_cash_activity_day ?s1 = 0"
    and cnt: "length (filter is_AccountEvent (events (projr ?run))) =
       length (filter is_AccountEvent (events example_client)) + 2"
    by simp_all
  from step have vals: "day_number ?s1 = 5" "account_cash_start_day ?s1 = 1000000"
      "account_cash_activity_day ?s1 = 0"
    by (simp_all add: dt_day_jan5 example_client_simps)
  from cnt have cnt2: "length (filter is_AccountEvent (events (projr ?run))) = 2"
    by (simp add: example_client_simps)
  show ?thesis
    by (intro conjI first day vals runs srt suc crd cnt2)
qed

text \<open>
  Two iterates on 2019-01-05 and 2019-02-05, two calendar days with the same day of the
  month: the second finds \<open>day_number\<close> equal to 5 and assigns nothing, and the run sends a
  single \<open>AccountEvent\<close>.
\<close>

theorem same_day_of_month_skips_rollover:
  "toordinal jan5 \<noteq> toordinal feb5
   \<and> \<not> isl (run_iterate example_enum_value example_client [jan5, feb5])
   \<and> day_rollover (projr (iterate example_enum_value example_client jan5)) feb5
       = projr (iterate example_enum_value example_client jan5)
   \<and> length (filter is_AccountEvent
        (events (projr (run_iterate example_enum_value example_client [jan5, feb5])))) = 1"
proof -
  let ?s1 = "(day_rollover example_client jan5)
               \<lparr>iteration := iteration (day_rollover example_client jan5) + 1\<rparr>"
  let ?s2 = "(day_rollover ?s1 feb5)\<lparr>iteration := iteration (day_rollover ?s1 feb5) + 1\<rparr>"
  have first: "iterate example_enum_value example_client jan5 = Inr ?s1"
    by (rule iterate_no_orders) (simp add: example_client_simps)
  have second: "iterate example_enum_value ?s1 feb5 = Inr ?s2"
    by (rule iterate_no_orders) (simp add: example_client_simps day_rollover_frame)
  have run: "run_iterate example_enum_value example_client [jan5, feb5] = Inr ?s2"
    unfolding run_iterate.simps first ebind_Inr second ..
  have same: "day_rollover ?s1 feb5 = ?s1"
    by (rule day_rollover_same) (simp add: day_rollover_frame dt_day_feb5 dt_day_jan5)
  have count: "length (filter is_AccountEvent (events ?s2)) = 1"
    unfolding same
    by (simp add: day_rollover_events example_client_simps dt_day_jan5)
  show ?thesis
    unfolding run first
    using same count by (simp add: example_days)
qed

subsection \<open>\<open>set_initial_iteration\<close>\<close>

text \<open>
  The addition of a step to a timestamp either gives the sum, inside the range of
  timestamps, or raises one of the two out-of-bounds errors.
\<close>

lemma timestamp_add_Inr:
  "timestamp_add t d = Inr t' \<longleftrightarrow>
     - nanosecond_span \<le> d \<and> d \<le> nanosecond_span \<and>
     timestamp_min \<le> t + d \<and> t + d \<le> timestamp_max \<and> t' = t + d"
  by (auto simp: timestamp_add_def)

lemma timestamp_add_Inl:
  "timestamp_add t d = Inl e \<Longrightarrow> e = OutOfBoundsDatetime \<or> e = OutOfBoundsTimedelta"
  by (auto simp: timestamp_add_def split: if_splits)

lemma timestamp_add_zero:
  "timestamp_min \<le> t \<Longrightarrow> t \<le> timestamp_max \<Longrightarrow> timestamp_add t 0 = Inr t"
  by (simp add: timestamp_add_def nanosecond_span_def)

lemma wind_forward:
  assumes "0 < time_step"
  shows "\<exists>r. wind idx to_time time_step current next_index iter = Some r \<and>
           (r = UncheckedRead \<or> r = Raised OutOfBoundsDatetime \<or> r = Raised OutOfBoundsTimedelta \<or>
            (\<exists>c it. r = Returned (c, it) \<and> to_time \<le> c))"
proof (induction "nat (to_time - current)" arbitrary: current next_index iter rule: less_induct)
  case less
  show ?case
  proof (cases "current < to_time \<and> next_index < length idx")
    case False
    then show ?thesis
      by (subst wind.simps) auto
  next
    case True
    show ?thesis
    proof (cases "timestamp_add current time_step")
      case (Inl e)
      with True timestamp_add_Inl [OF Inl] show ?thesis
        by (subst wind.simps) auto
    next
      case (Inr advanced)
      then have adv: "advanced = current + time_step"
        by (simp add: timestamp_add_Inr)
      with assms True have "nat (to_time - advanced) < nat (to_time - current)"
        by simp
      from less [OF this] Inr True show ?thesis
        by (subst wind.simps) simp
    qed
  qed
qed

lemma wind_backward:
  assumes "time_step < 0"
  shows "current < to_time \<Longrightarrow>
         \<exists>r. wind idx to_time time_step current next_index iter = Some r \<and>
           (r = UncheckedRead \<or> r = Raised OutOfBoundsDatetime \<or> r = Raised OutOfBoundsTimedelta)"
proof (induction "nat (current - timestamp_min)" arbitrary: current next_index iter rule: less_induct)
  case less
  show ?case
  proof (cases "next_index < length idx")
    case False
    with less.prems show ?thesis
      by (subst wind.simps) auto
  next
    case True
    show ?thesis
    proof (cases "timestamp_add current time_step")
      case (Inl e)
      with True less.prems timestamp_add_Inl [OF Inl] show ?thesis
        by (subst wind.simps) auto
    next
      case (Inr advanced)
      then have adv: "advanced = current + time_step" "timestamp_min \<le> advanced"
        by (simp_all add: timestamp_add_Inr)
      with assms have smaller: "nat (advanced - timestamp_min) < nat (current - timestamp_min)"
        by simp
      from adv assms less.prems have before: "advanced < to_time"
        by simp
      from less.hyps [OF smaller before] Inr True less.prems show ?thesis
        by (subst wind.simps) simp
    qed
  qed
qed

lemma wind_stalls:
  assumes "wind idx to_time time_step current next_index iter = Some r"
  shows "\<not> (time_step = 0 \<and> current < to_time \<and> timestamp_min \<le> current \<and>
            current \<le> timestamp_max \<and>
            (\<exists>j. next_index \<le> j \<and> j < length idx \<and> idx ! j \<noteq> current))"
  using assms
proof (induction rule: wind.raw_induct [rotated 1, consumes 1, case_names step])
  case (step wind idx to_time time_step current next_index iter r)
  show ?case
  proof
    assume inv: "time_step = 0 \<and> current < to_time \<and> timestamp_min \<le> current \<and>
            current \<le> timestamp_max \<and>
            (\<exists>j. next_index \<le> j \<and> j < length idx \<and> idx ! j \<noteq> current)"
    then obtain j where j: "next_index \<le> j" "j < length idx" "idx ! j \<noteq> current"
      by blast
    from inv have add: "timestamp_add current time_step = Inr current"
      by (simp add: timestamp_add_zero)
    let ?k = "if idx ! next_index = current then next_index + 1 else next_index"
    let ?it = "if idx ! next_index = current then iter + 1 else iter"
    from step.hyps inv j add have again: "wind idx to_time time_step current ?k ?it = Some r"
      by simp
    have "?k \<le> j"
      using j by (cases "next_index = j") auto
    with step.IH [OF again] inv j show False
      by blast
  qed
qed

lemma wind_exhausts:
  assumes "current < to_time" "timestamp_min \<le> current" "current \<le> timestamp_max"
  shows "next_index \<le> length idx \<Longrightarrow> \<forall>j. next_index \<le> j \<and> j < length idx \<longrightarrow> idx ! j = current \<Longrightarrow>
         wind idx to_time 0 current next_index iter = Some UncheckedRead"
proof (induction "length idx - next_index" arbitrary: next_index iter)
  case 0
  with assms(1) show ?case
    by (subst wind.simps) simp
next
  case (Suc n)
  then have inside: "next_index < length idx" and match: "idx ! next_index = current"
    by auto
  have "wind idx to_time 0 current (next_index + 1) (iter + 1) = Some UncheckedRead"
    using Suc.hyps(2) Suc.prems inside by (intro Suc.hyps(1)) auto
  with assms inside match show ?case
    by (subst wind.simps) (simp add: timestamp_add_zero)
qed

lemma wind_reads_inside:
  assumes "wind idx to_time time_step current next_index iter = Some r"
  shows "idx \<noteq> [] \<and> to_time \<le> last idx \<and> next_index < length idx \<longrightarrow> r \<noteq> UncheckedRead"
  using assms
proof (induction rule: wind.raw_induct [rotated 1, consumes 1, case_names step])
  case (step wind idx to_time time_step current next_index iter r)
  show ?case
  proof
    assume inv: "idx \<noteq> [] \<and> to_time \<le> last idx \<and> next_index < length idx"
    show "r \<noteq> UncheckedRead"
    proof (cases "current < to_time")
      case False
      with step.hyps show ?thesis
        by auto
    next
      case True
      let ?k = "if idx ! next_index = current then next_index + 1 else next_index"
      let ?it = "if idx ! next_index = current then iter + 1 else iter"
      have inside: "?k < length idx"
      proof (cases "idx ! next_index = current")
        case match: True
        have "Suc next_index \<noteq> length idx"
        proof
          assume "Suc next_index = length idx"
          then have "next_index = length idx - 1"
            by simp
          then have "idx ! next_index = last idx"
            using inv by (simp add: last_conv_nth)
          with match inv True show False
            by simp
        qed
        with inv match show ?thesis
          by simp
      next
        case False
        with inv show ?thesis
          by simp
      qed
      show ?thesis
      proof (cases "timestamp_add current time_step")
        case (Inl e)
        with step.hyps True inv show ?thesis
          by auto
      next
        case (Inr advanced)
        with step.hyps True inv have "wind idx to_time time_step advanced ?k ?it = Some r"
          by simp
        from step.IH [OF this] inv inside show ?thesis
          by blast
      qed
    qed
  qed
qed


lemma set_initial_iteration_outcome:
  assumes "data_minute_index s = first # rest"
  shows "set_initial_iteration s to_time time_step =
           (case wind (first # rest) to_time time_step first 0 (iteration s) of
              None \<Rightarrow> None
            | Some (Returned (current, iter)) \<Rightarrow>
                Some (Returned (s\<lparr>iteration := iter, clock_time := current\<rparr>))
            | Some (Raised e) \<Rightarrow> Some (Raised e)
            | Some UncheckedRead \<Rightarrow> Some UncheckedRead)"
  using assms by (simp add: set_initial_iteration_def)

text \<open>
  C8. How \<open>set_initial_iteration\<close> ends, by the sign of the time step. With a positive
  step the call always ends: it returns with the clock at or after \<open>to_time\<close>, or raises
  \<open>OutOfBoundsDatetime\<close> or \<open>OutOfBoundsTimedelta\<close>, or reads the index past its end. With a
  negative step and \<open>to_time\<close> after \<open>index[0]\<close> the call always ends too, and never by
  returning: it raises \<open>OutOfBoundsDatetime\<close> or \<open>OutOfBoundsTimedelta\<close>, or reads the
  index past its end. With a zero step and \<open>to_time\<close> after \<open>index[0]\<close>, the loop runs
  forever exactly when some index entry differs from \<open>index[0]\<close>, and otherwise reads the
  index past its end. Whatever the step, the index is not read past its end when \<open>to_time\<close>
  is not after the last index entry.
\<close>

theorem set_initial_iteration_termination:
  assumes "data_minute_index s = first # rest"
  shows "(0 < time_step \<longrightarrow>
            (\<exists>r. set_initial_iteration s to_time time_step = Some r \<and>
               (r = UncheckedRead \<or> r = Raised OutOfBoundsDatetime \<or>
                r = Raised OutOfBoundsTimedelta \<or>
                (\<exists>c it. r = Returned (s\<lparr>iteration := it, clock_time := c\<rparr>) \<and> to_time \<le> c))))
       \<and> (time_step < 0 \<and> first < to_time \<longrightarrow>
            (\<exists>r. set_initial_iteration s to_time time_step = Some r \<and>
               (r = UncheckedRead \<or> r = Raised OutOfBoundsDatetime \<or>
                r = Raised OutOfBoundsTimedelta)))
       \<and> (time_step = 0 \<and> first < to_time \<and> timestamp_min \<le> first \<and> first \<le> timestamp_max \<longrightarrow>
            set_initial_iteration s to_time time_step =
              (if \<exists>x \<in> set rest. x \<noteq> first then None else Some UncheckedRead))
       \<and> (to_time \<le> last (first # rest) \<longrightarrow>
            set_initial_iteration s to_time time_step \<noteq> Some UncheckedRead)"
proof (intro conjI impI)
  let ?w = "wind (first # rest) to_time time_step first 0 (iteration s)"
  note out = set_initial_iteration_outcome [OF assms, of to_time time_step]
  {
    assume "0 < time_step"
    from wind_forward [OF this, of "first # rest" to_time first 0 "iteration s"]
    obtain r where r: "?w = Some r"
      "r = UncheckedRead \<or> r = Raised OutOfBoundsDatetime \<or> r = Raised OutOfBoundsTimedelta \<or>
       (\<exists>c it. r = Returned (c, it) \<and> to_time \<le> c)"
      by blast
    from r(2) show "\<exists>r. set_initial_iteration s to_time time_step = Some r \<and>
               (r = UncheckedRead \<or> r = Raised OutOfBoundsDatetime \<or>
                r = Raised OutOfBoundsTimedelta \<or>
                (\<exists>c it. r = Returned (s\<lparr>iteration := it, clock_time := c\<rparr>) \<and> to_time \<le> c))"
      unfolding out r(1) by (elim disjE exE conjE) auto
  }
  {
    assume "time_step < 0 \<and> first < to_time"
    then have "time_step < 0" "first < to_time"
      by simp_all
    from wind_backward [OF this, of "first # rest" 0 "iteration s"]
    obtain r where r: "?w = Some r"
      "r = UncheckedRead \<or> r = Raised OutOfBoundsDatetime \<or> r = Raised OutOfBoundsTimedelta"
      by blast
    from r(2) show "\<exists>r. set_initial_iteration s to_time time_step = Some r \<and>
               (r = UncheckedRead \<or> r = Raised OutOfBoundsDatetime \<or>
                r = Raised OutOfBoundsTimedelta)"
      unfolding out r(1) by (elim disjE) auto
  }
  {
    assume h: "time_step = 0 \<and> first < to_time \<and> timestamp_min \<le> first \<and> first \<le> timestamp_max"
    show "set_initial_iteration s to_time time_step =
              (if \<exists>x \<in> set rest. x \<noteq> first then None else Some UncheckedRead)"
    proof (cases "\<exists>x \<in> set rest. x \<noteq> first")
      case True
      then obtain i where "i < length rest" "rest ! i \<noteq> first"
        by (auto simp: in_set_conv_nth)
      then have "0 \<le> Suc i \<and> Suc i < length (first # rest) \<and> (first # rest) ! Suc i \<noteq> first"
        by simp
      then have later: "\<exists>j. 0 \<le> j \<and> j < length (first # rest) \<and> (first # rest) ! j \<noteq> first"
        by blast
      have "?w = None"
      proof (cases ?w)
        case None
        then show ?thesis .
      next
        case (Some r)
        from wind_stalls [OF Some] h later show ?thesis
          by blast
      qed
      with True show ?thesis
        unfolding out by simp
    next
      case False
      then have same: "\<forall>j. 0 \<le> j \<and> j < length (first # rest) \<longrightarrow> (first # rest) ! j = first"
        by (auto simp: nth_Cons split: nat.splits)
      from h have "wind (first # rest) to_time 0 first 0 (iteration s) = Some UncheckedRead"
        by (intro wind_exhausts same) simp_all
      with h False show ?thesis
        unfolding out by simp
    qed
  }
  {
    assume inside: "to_time \<le> last (first # rest)"
    show "set_initial_iteration s to_time time_step \<noteq> Some UncheckedRead"
    proof
      assume "set_initial_iteration s to_time time_step = Some UncheckedRead"
      then have w: "?w = Some UncheckedRead"
        unfolding out by (auto split: option.splits outcome.splits)
      from wind_reads_inside [OF w] inside show False
        by simp
    qed
  }
qed

subsection \<open>The example index\<close>

lemma example_index:
  "data_minute_index example_client = [jan5, jan5 + minute, jan5 + 2 * minute]"
  "iteration example_client = 0"
  by (simp_all add: example_client_def set_slippage_index_def)

lemmas timestamp_defs = timestamp_min_def timestamp_max_def nanosecond_span_def epoch_def
  usec_per_day_def

lemma jan5_valid: "timestamp_min \<le> jan5" "jan5 \<le> timestamp_max"
  by (simp_all add: timestamp_defs jan5_def)

theorem set_initial_iteration_termination_witness:
  "data_minute_index example_client = jan5 # [jan5 + minute, jan5 + 2 * minute]
   \<and> 0 < minute
   \<and> (\<exists>r. set_initial_iteration example_client (jan5 + minute) minute = Some r \<and>
          (r = UncheckedRead \<or> r = Raised OutOfBoundsDatetime \<or>
           r = Raised OutOfBoundsTimedelta \<or>
           (\<exists>c it. r = Returned (example_client\<lparr>iteration := it, clock_time := c\<rparr>) \<and>
                   jan5 + minute \<le> c)))
   \<and> - minute < 0 \<and> jan5 < jan5 + minute
   \<and> (\<exists>r. set_initial_iteration example_client (jan5 + minute) (- minute) = Some r \<and>
          (r = UncheckedRead \<or> r = Raised OutOfBoundsDatetime \<or>
           r = Raised OutOfBoundsTimedelta))
   \<and> timestamp_min \<le> jan5 \<and> jan5 \<le> timestamp_max
   \<and> set_initial_iteration example_client (jan5 + minute) 0 = None
   \<and> data_minute_index (example_client\<lparr>data_minute_index := [jan5]\<rparr>) = jan5 # []
   \<and> set_initial_iteration (example_client\<lparr>data_minute_index := [jan5]\<rparr>) (jan5 + minute) 0
       = Some UncheckedRead
   \<and> jan5 + minute \<le> last (jan5 # [jan5 + minute, jan5 + 2 * minute])
   \<and> set_initial_iteration example_client (jan5 + minute) minute \<noteq> Some UncheckedRead
   \<and> set_initial_iteration example_client (jan5 + minute) (- minute) \<noteq> Some UncheckedRead"
proof -
  let ?one = "example_client\<lparr>data_minute_index := [jan5]\<rparr>"
  have idx: "data_minute_index example_client = jan5 # [jan5 + minute, jan5 + 2 * minute]"
    by (simp add: example_index)
  have idx1: "data_minute_index ?one = jan5 # []"
    by simp
  have h: "0 < minute" "- minute < 0" "jan5 < jan5 + minute"
      "jan5 + minute \<le> last (jan5 # [jan5 + minute, jan5 + 2 * minute])"
    by (simp_all add: minute_def)
  have differ: "\<exists>x \<in> set [jan5 + minute, jan5 + 2 * minute]. x \<noteq> jan5"
    by (simp add: minute_def)
  note fwd = set_initial_iteration_termination
               [OF idx, where to_time = "jan5 + minute" and time_step = minute]
  note bwd = set_initial_iteration_termination
               [OF idx, where to_time = "jan5 + minute" and time_step = "- minute"]
  note zero = set_initial_iteration_termination
               [OF idx, where to_time = "jan5 + minute" and time_step = 0]
  note zero1 = set_initial_iteration_termination
               [OF idx1, where to_time = "jan5 + minute" and time_step = 0]
  from fwd h(1) have a: "\<exists>r. set_initial_iteration example_client (jan5 + minute) minute = Some r \<and>
          (r = UncheckedRead \<or> r = Raised OutOfBoundsDatetime \<or>
           r = Raised OutOfBoundsTimedelta \<or>
           (\<exists>c it. r = Returned (example_client\<lparr>iteration := it, clock_time := c\<rparr>) \<and>
                   jan5 + minute \<le> c))"
    by (elim conjE) simp
  from bwd h(2,3) have b: "\<exists>r. set_initial_iteration example_client (jan5 + minute) (- minute) = Some r \<and>
          (r = UncheckedRead \<or> r = Raised OutOfBoundsDatetime \<or>
           r = Raised OutOfBoundsTimedelta)"
    by (elim conjE) simp
  from zero h(3) jan5_valid differ
  have c: "set_initial_iteration example_client (jan5 + minute) 0 = None"
    by (elim conjE) simp
  from zero1 h(3) jan5_valid
  have d: "set_initial_iteration ?one (jan5 + minute) 0 = Some UncheckedRead"
    by (elim conjE) simp
  from fwd h(4) have e: "set_initial_iteration example_client (jan5 + minute) minute \<noteq> Some UncheckedRead"
    by (elim conjE) simp
  from bwd h(4) have f: "set_initial_iteration example_client (jan5 + minute) (- minute) \<noteq> Some UncheckedRead"
    by (elim conjE) simp
  show ?thesis
    by (intro conjI idx idx1 h jan5_valid a b c d e f)
qed

text \<open>
  Steps that are not positive, from 2019-01-05 with \<open>to_time\<close> one minute after \<open>index[0]\<close>.
  A step of minus 800 000 days is longer than the span of a pandas timedelta, and the first
  addition raises \<open>OutOfBoundsTimedelta\<close>. A step of minus 100 000 days is added once, giving
  a timestamp in 1745, and the second addition, to before 1677, raises
  \<open>OutOfBoundsDatetime\<close>. With a zero step and an index of the one entry 2019-01-05, the
  first pass of the loop moves \<open>next_index\<close> to 1 and the second pass reads \<open>index[1]\<close>, past
  the end of the index. The loop runs forever in none of the three calls.
\<close>

theorem nonpositive_step_loop_ends:
  "hd (data_minute_index example_client) < jan5 + minute
   \<and> - 800000 * usec_per_day < 0
   \<and> set_initial_iteration example_client (jan5 + minute) (- 800000 * usec_per_day)
       = Some (Raised OutOfBoundsTimedelta)
   \<and> - 100000 * usec_per_day < 0
   \<and> set_initial_iteration example_client (jan5 + minute) (- 100000 * usec_per_day)
       = Some (Raised OutOfBoundsDatetime)
   \<and> hd (data_minute_index (example_client\<lparr>data_minute_index := [jan5]\<rparr>)) < jan5 + minute
   \<and> set_initial_iteration (example_client\<lparr>data_minute_index := [jan5]\<rparr>) (jan5 + minute) 0
       = Some UncheckedRead"
proof -
  let ?idx = "[jan5, jan5 + minute, jan5 + 2 * minute]"
  have far: "timestamp_add jan5 (- 800000 * usec_per_day) = Inl OutOfBoundsTimedelta"
    by (simp add: timestamp_add_def timestamp_defs)
  have once: "timestamp_add jan5 (- 100000 * usec_per_day) = Inr (jan5 - 100000 * usec_per_day)"
    by (simp add: timestamp_add_def timestamp_defs jan5_def)
  have twice: "timestamp_add (jan5 - 100000 * usec_per_day) (- 100000 * usec_per_day)
                 = Inl OutOfBoundsDatetime"
    by (simp add: timestamp_add_def timestamp_defs jan5_def)
  have still: "timestamp_add jan5 0 = Inr jan5"
    by (rule timestamp_add_zero) (rule jan5_valid)+
  have before: "jan5 < jan5 + minute" "jan5 - 100000 * usec_per_day < jan5 + minute"
    by (simp_all add: minute_def usec_per_day_def)
  have a: "wind ?idx (jan5 + minute) (- 800000 * usec_per_day) jan5 0 0
             = Some (Raised OutOfBoundsTimedelta)"
    using before(1) far by (subst wind.simps) simp
  have "wind ?idx (jan5 + minute) (- 100000 * usec_per_day) (jan5 - 100000 * usec_per_day) 1 1
          = Some (Raised OutOfBoundsDatetime)"
    using before(2) twice by (subst wind.simps) simp
  then have b: "wind ?idx (jan5 + minute) (- 100000 * usec_per_day) jan5 0 0
             = Some (Raised OutOfBoundsDatetime)"
    using before(1) once by (subst wind.simps) simp
  have "wind [jan5] (jan5 + minute) 0 jan5 1 1 = Some UncheckedRead"
    using before(1) by (subst wind.simps) simp
  then have z: "wind [jan5] (jan5 + minute) 0 jan5 0 0 = Some UncheckedRead"
    using before(1) still by (subst wind.simps) simp
  have c: "hd (data_minute_index example_client) < jan5 + minute"
      "- 800000 * usec_per_day < 0" "- 100000 * usec_per_day < 0"
      "hd (data_minute_index (example_client\<lparr>data_minute_index := [jan5]\<rparr>)) < jan5 + minute"
    by (simp_all add: example_index minute_def usec_per_day_def)
  have d: "set_initial_iteration example_client (jan5 + minute) (- 800000 * usec_per_day)
       = Some (Raised OutOfBoundsTimedelta)"
    using a by (simp add: set_initial_iteration_def example_index)
  have e: "set_initial_iteration example_client (jan5 + minute) (- 100000 * usec_per_day)
       = Some (Raised OutOfBoundsDatetime)"
    using b by (simp add: set_initial_iteration_def example_index)
  have f: "set_initial_iteration (example_client\<lparr>data_minute_index := [jan5]\<rparr>) (jan5 + minute) 0
       = Some UncheckedRead"
    using z by (simp add: set_initial_iteration_def example_index)
  show ?thesis
    by (intro conjI c d e f)
qed

subsection \<open>\<open>set_initial_iteration\<close> and the spec's account of it\<close>




text \<open>
  A step of 100 000 days from 2019-01-05 towards a \<open>to_time\<close> two minutes later: the first
  addition would put the wall clock in 2292, past the last pandas timestamp, and the call
  raises \<open>OutOfBoundsDatetime\<close> with the clock not set.
\<close>

lemma far_step_raises:
  "set_initial_iteration example_client (jan5 + 2 * minute) (100000 * usec_per_day)
     = Some (Raised OutOfBoundsDatetime)"
proof -
  have add: "timestamp_add jan5 (100000 * usec_per_day) = Inl OutOfBoundsDatetime"
    by (simp add: timestamp_add_def timestamp_defs jan5_def)
  have "jan5 < jan5 + 2 * minute"
    by (simp add: minute_def)
  then have "wind [jan5, jan5 + minute, jan5 + 2 * minute] (jan5 + 2 * minute)
               (100000 * usec_per_day) jan5 0 0 = Some (Raised OutOfBoundsDatetime)"
    using add by (subst wind.simps) simp
  then show ?thesis
    by (simp add: set_initial_iteration_def example_index)
qed

end
